theory Spec2Isabelle
  imports Complex_Main "HOL-Library.Multiset"
begin

section \<open>Strings and numbers of the edge functions\<close>

text \<open>
  The edge functions are TypeScript. Their strings are modelled as \<^typ>\<open>string\<close>, one
  \<^typ>\<open>char\<close> per code unit, restricted to the code units 0 to 255 (Latin-1).
\<close>

definition toLowerChar :: "char \<Rightarrow> char" where
  "toLowerChar c =
     (let n = (of_char c :: nat)
      in if (65 \<le> n \<and> n \<le> 90) \<or> (192 \<le> n \<and> n \<le> 214) \<or> (216 \<le> n \<and> n \<le> 222)
         then char_of (n + 32) else c)"

definition toLowerCase :: "string \<Rightarrow> string" where
  "toLowerCase s = map toLowerChar s"

definition isWhiteSpace :: "char \<Rightarrow> bool" where
  "isWhiteSpace c =
     (let n = (of_char c :: nat) in (9 \<le> n \<and> n \<le> 13) \<or> n = 32 \<or> n = 160)"

definition trim :: "string \<Rightarrow> string" where
  "trim s = rev (dropWhile isWhiteSpace (rev (dropWhile isWhiteSpace s)))"

fun startsWith :: "string \<Rightarrow> string \<Rightarrow> bool" where
  "startsWith s [] = True"
| "startsWith [] (c # cs) = False"
| "startsWith (d # ds) (c # cs) = (d = c \<and> startsWith ds cs)"

text \<open>\<open>str_includes s sub\<close> is \<open>s.includes(sub)\<close>: \<open>sub\<close> occurs in \<open>s\<close> as a contiguous run.\<close>

fun str_includes :: "string \<Rightarrow> string \<Rightarrow> bool" where
  "str_includes [] sub = (sub = [])"
| "str_includes (c # cs) sub = (startsWith (c # cs) sub \<or> str_includes cs sub)"

text \<open>\<open>Math.round\<close>: the nearest integer, a tie going up.\<close>

definition Math_round :: "rat \<Rightarrow> int" where
  "Math_round x = \<lfloor>x + 1 / 2\<rfloor>"

section \<open>Double-precision numbers\<close>

text \<open>
  A number of the handlers is an IEEE 754 double. A finite double is modelled by the
  rational it denotes, and every arithmetic operation by the exact operation followed by
  \<open>double_of\<close>, the rounding to the nearest double (53 significant bits, a tie going to
  the even neighbour, multiples of \<open>2 powi (- 1074)\<close> below the normal range). A result of
  magnitude \<open>2 powi 1024\<close> or more is an infinity on the machine and is outside this
  model; the handlers' numbers stay far below (a score is a \<open>NUMERIC(5,2)\<close> column, at most
  five are summed, a list length is below \<open>2 ^ 32\<close>, the other constants are below
  \<open>10 ^ 6\<close>).
\<close>

text \<open>The binary exponent of a positive number: \<open>2 powi expo x \<le> x < 2 powi (expo x + 1)\<close>.\<close>

function expo :: "rat \<Rightarrow> int" where
  "expo x = (if x \<le> 0 then 0
             else if 2 \<le> x then expo (x / 2) + 1
             else if x < 1 then expo (x * 2) - 1
             else 0)"
  by pat_completeness auto

termination
proof (relation "measure (\<lambda>x. 2 * nat \<lceil>1 / x\<rceil> + nat \<lfloor>x\<rfloor>)")
  show "wf (measure (\<lambda>x::rat. 2 * nat \<lceil>1 / x\<rceil> + nat \<lfloor>x\<rfloor>))" by simp
next
  fix x :: rat
  assume "\<not> x \<le> 0" and big: "2 \<le> x"
  have "0 < 1 / x" "1 / x \<le> 1" using big by simp_all
  then have c1: "\<lceil>1 / x\<rceil> = 1" by (simp add: ceiling_eq_iff)
  have "0 < 1 / (x / 2)" "1 / (x / 2) \<le> 1" using big by simp_all
  then have c2: "\<lceil>1 / (x / 2)\<rceil> = 1" by (simp add: ceiling_eq_iff)
  have "x / 2 \<le> x - 1" using big by simp
  then have "\<lfloor>x / 2\<rfloor> \<le> \<lfloor>x - 1\<rfloor>" by (rule floor_mono)
  then have f: "\<lfloor>x / 2\<rfloor> < \<lfloor>x\<rfloor>" by simp
  have "0 < \<lfloor>x\<rfloor>" using big by simp
  with f have "nat \<lfloor>x / 2\<rfloor> < nat \<lfloor>x\<rfloor>" by simp
  with c1 c2 show "(x / 2, x) \<in> measure (\<lambda>x. 2 * nat \<lceil>1 / x\<rceil> + nat \<lfloor>x\<rfloor>)"
    by simp
next
  fix x :: rat
  assume "\<not> x \<le> 0" "\<not> 2 \<le> x" and small: "x < 1"
  then have pos: "0 < x" by simp
  have fx: "\<lfloor>x\<rfloor> = 0" using pos small by (simp add: floor_eq_iff)
  show "(x * 2, x) \<in> measure (\<lambda>x. 2 * nat \<lceil>1 / x\<rceil> + nat \<lfloor>x\<rfloor>)"
  proof (cases "1 / 2 \<le> x")
    case True
    then have "\<lfloor>x * 2\<rfloor> = 1" using small by (simp add: floor_eq_iff)
    moreover have "\<lceil>1 / (x * 2)\<rceil> = 1" using True pos by (simp add: ceiling_eq_iff)
    moreover have "\<lceil>1 / x\<rceil> = 2" using True pos small by (simp add: ceiling_eq_iff field_simps)
    ultimately show ?thesis using fx by simp
  next
    case False
    then have "\<lfloor>x * 2\<rfloor> = 0" using pos by (simp add: floor_eq_iff)
    moreover have "1 / (x * 2) \<le> 1 / x - 1" using False pos by (simp add: field_simps)
    then have "\<lceil>1 / (x * 2)\<rceil> \<le> \<lceil>1 / x - 1\<rceil>" by (rule ceiling_mono)
    then have "\<lceil>1 / (x * 2)\<rceil> < \<lceil>1 / x\<rceil>" by simp
    moreover have "0 < \<lceil>1 / x\<rceil>" using pos by simp
    ultimately show ?thesis using fx by simp
  qed
qed

declare expo.simps [simp del]

text \<open>Rounding to the nearest integer, a tie going to the even one.\<close>

definition round_half_even :: "rat \<Rightarrow> int" where
  "round_half_even y =
     (let n = \<lfloor>y\<rfloor>; d = y - of_int n
      in if d < 1 / 2 then n else if 1 / 2 < d then n + 1 else if even n then n else n + 1)"

text \<open>The spacing of the doubles around \<open>x\<close>, and the double nearest to \<open>x\<close>.\<close>

definition quantum :: "rat \<Rightarrow> rat" where
  "quantum x = 2 powi (max (expo \<bar>x\<bar>) (- 1022) - 52)"

definition double_of :: "rat \<Rightarrow> rat" where
  "double_of x = of_int (round_half_even (x / quantum x)) * quantum x"

definition is_double :: "rat \<Rightarrow> bool" where
  "is_double x = (double_of x = x \<and> \<bar>x\<bar> < 2 powi 1024)"

text \<open>The operators \<open>+\<close>, \<open>*\<close> and \<open>/\<close> on doubles.\<close>

definition fadd :: "rat \<Rightarrow> rat \<Rightarrow> rat" where
  "fadd x y = double_of (x + y)"

definition fmul :: "rat \<Rightarrow> rat \<Rightarrow> rat" where
  "fmul x y = double_of (x * y)"

definition fdiv :: "rat \<Rightarrow> rat \<Rightarrow> rat" where
  "fdiv x y = double_of (x / y)"

section \<open>Skill cleaning\<close>

text \<open>
  A raw skill is whatever JSON value the upstream array holds; the filters test it with
  \<open>!skill\<close> and \<open>typeof skill !== 'string'\<close>.
\<close>

datatype json = JNull | JBool bool | JNum int | JStr string | JObject

fun truthy :: "json \<Rightarrow> bool" where
  "truthy JNull = False"
| "truthy (JBool b) = b"
| "truthy (JNum n) = (n \<noteq> 0)"
| "truthy (JStr s) = (s \<noteq> [])"
| "truthy JObject = True"

fun is_string :: "json \<Rightarrow> bool" where
  "is_string (JStr s) = True"
| "is_string _ = False"

fun str_of :: "json \<Rightarrow> string" where
  "str_of (JStr s) = s"
| "str_of _ = []"

text \<open>The filter callback of the recommender (\<open>studentSkills\<close>).\<close>

definition keep_student_skill :: "json \<Rightarrow> bool" where
  "keep_student_skill skill =
     (if \<not> truthy skill \<or> \<not> is_string skill then False
      else if str_includes (str_of skill) ''['' \<or> str_includes (str_of skill) ''=''
              \<or> str_includes (str_of skill) ''{'' then False
      else length (str_of skill) > 1)"

definition cleanStudentSkills :: "json list option \<Rightarrow> string list" where
  "cleanStudentSkills resume_skills =
     map (\<lambda>s. trim (toLowerCase s))
       (map str_of (filter keep_student_skill
          (case resume_skills of None \<Rightarrow> [] | Some xs \<Rightarrow> xs)))"

text \<open>The filter callback of the resume parser, and its whole cleaning pipeline.\<close>

definition keep_parsed_skill :: "json \<Rightarrow> bool" where
  "keep_parsed_skill skill =
     (if \<not> truthy skill \<or> \<not> is_string skill then False
      else if length (str_of skill) < 2 \<or> length (str_of skill) > 50 then False
      else if str_includes (str_of skill) ''['' \<or> str_includes (str_of skill) ''=''
              \<or> str_includes (str_of skill) ''{'' then False
      else True)"

definition clean_parsed_skills :: "json list \<Rightarrow> string list" where
  "clean_parsed_skills skills =
     filter (\<lambda>skill. length skill > 0)
       (map trim (map str_of (filter keep_parsed_skill skills)))"

section \<open>The skill-match recommender\<close>

text \<open>The loop of \<open>calculateSkillMatch\<close>, with its counter as an accumulator.\<close>

fun count_matches :: "string list \<Rightarrow> string list \<Rightarrow> nat \<Rightarrow> nat" where
  "count_matches studentSkills [] matches = matches"
| "count_matches studentSkills (jobSkill # rest) matches =
     count_matches studentSkills rest
       (if list_ex (\<lambda>s. str_includes s jobSkill \<or> str_includes jobSkill s) studentSkills
        then matches + 1 else matches)"

definition calculateSkillMatch :: "string list \<Rightarrow> string list \<Rightarrow> rat" where
  "calculateSkillMatch studentSkills jobSkills =
     (if length jobSkills = 0 \<or> length studentSkills = 0 then 50
      else (of_nat (count_matches studentSkills jobSkills 0) / of_nat (length jobSkills)) * 100)"

text \<open>
  \<open>calculateSkillMatch\<close> is the function's expression over the exact numbers, the ratio
  of the spec. The number the function returns is a double: the quotient is rounded, and
  so is its product with 100.
\<close>

definition calculateSkillMatch_double :: "string list \<Rightarrow> string list \<Rightarrow> rat" where
  "calculateSkillMatch_double studentSkills jobSkills =
     (if length jobSkills = 0 \<or> length studentSkills = 0 then 50
      else fmul (fdiv (of_nat (count_matches studentSkills jobSkills 0))
                   (of_nat (length jobSkills))) 100)"

record job =
  job_id :: string
  job_role :: string
  company_name :: string
  skills_required :: "string list option"

record JobRecommendation =
  rec_job_id :: string
  rec_company_name :: string
  rec_role :: string
  match_score :: int
  skill_match :: int
  test_performance :: int
  interview_performance :: int
  reasons :: "string list"
  rec_skills_required :: "string list"

text \<open>
  The average of the last scores. A score is the decimal of its column, or null;
  \<open>Number(r.score) || 0\<close> is the double nearest to the decimal, and 0 for null. The sum
  is accumulated from 0 in the order of the rows.
\<close>

definition score_number :: "rat option \<Rightarrow> rat" where
  "score_number score = (case score of None \<Rightarrow> 0 | Some v \<Rightarrow> double_of v)"

definition average :: "rat option list option \<Rightarrow> rat" where
  "average results =
     (case results of
        None \<Rightarrow> 0
      | Some rs \<Rightarrow>
          if length rs > 0
          then fdiv (foldl (\<lambda>sum r. fadd sum (score_number r)) 0 rs) (of_nat (length rs))
          else 0)"

definition jobSkills_of :: "job \<Rightarrow> string list" where
  "jobSkills_of j =
     map toLowerCase (case skills_required j of None \<Rightarrow> [] | Some xs \<Rightarrow> xs)"


text \<open>\<open>skillMatch\<close>, the double the handler holds for a job.\<close>

definition skillMatch_double_of :: "string list \<Rightarrow> job \<Rightarrow> rat" where
  "skillMatch_double_of studentSkills j =
     calculateSkillMatch_double studentSkills (jobSkills_of j)"

definition reasons_of :: "string list \<Rightarrow> rat \<Rightarrow> rat \<Rightarrow> job \<Rightarrow> string list" where
  "reasons_of studentSkills avgMockScore avgInterviewScore j =
     (if length (jobSkills_of j) = 0 then [''Open to all candidates'']
      else if skillMatch_double_of studentSkills j > 70 then [''Strong skill match'']
      else if skillMatch_double_of studentSkills j > 40 then [''Good skill match'']
      else [])
     @ (if avgMockScore > 70 then [''Excellent test performance''] else [])
     @ (if avgInterviewScore > 70 then [''Strong interview performance''] else [])"

definition matchScore_of :: "string list \<Rightarrow> rat \<Rightarrow> rat \<Rightarrow> job \<Rightarrow> rat" where
  "matchScore_of studentSkills avgMockScore avgInterviewScore j =
     fadd (fadd (fmul (skillMatch_double_of studentSkills j) (1 / 2))
                (fmul avgMockScore (1 / 4)))
          (fmul avgInterviewScore (1 / 4))"

definition recommendation_of :: "string list \<Rightarrow> rat \<Rightarrow> rat \<Rightarrow> job \<Rightarrow> JobRecommendation" where
  "recommendation_of studentSkills avgMockScore avgInterviewScore j =
     \<lparr> rec_job_id = job_id j,
       rec_company_name = company_name j,
       rec_role = job_role j,
       match_score = Math_round (matchScore_of studentSkills avgMockScore avgInterviewScore j),
       skill_match = Math_round (skillMatch_double_of studentSkills j),
       test_performance = Math_round avgMockScore,
       interview_performance = Math_round avgInterviewScore,
       reasons = reasons_of studentSkills avgMockScore avgInterviewScore j,
       rec_skills_required = jobSkills_of j \<rparr>"

text \<open>
  The loop over \<open>offcampusJobs\<close>: a job whose score reaches 15 is pushed onto
  \<open>recommendations\<close>, any other is skipped.
\<close>

fun process_jobs ::
  "string list \<Rightarrow> rat \<Rightarrow> rat \<Rightarrow> job list \<Rightarrow> JobRecommendation list \<Rightarrow> JobRecommendation list"
where
  "process_jobs ss am ai [] recommendations = recommendations"
| "process_jobs ss am ai (j # js) recommendations =
     process_jobs ss am ai js
       (if matchScore_of ss am ai j \<ge> 15
        then recommendations @ [recommendation_of ss am ai j]
        else recommendations)"

text \<open>
  The list the handler persists: the loop's result, sorted by \<open>match_score\<close> descending
  (the sort is stable, as \<open>Array.prototype.sort\<close> is). What the handler fetches before
  (the profile's \<open>resume_skills\<close>, the last five mock results and interview scores, the
  off-campus postings) are the arguments; a request that fails before the computation (no
  authorization header, unknown user, profile error) is answered 500 and reaches neither
  this function nor the table.
\<close>

definition recommend ::
  "json list option \<Rightarrow> rat option list option \<Rightarrow> rat option list option \<Rightarrow> job list option
     \<Rightarrow> JobRecommendation list"
where
  "recommend resume_skills mockResults interviews offcampusJobs =
     (let avgMockScore = average mockResults;
          avgInterviewScore = average interviews;
          ss = cleanStudentSkills resume_skills;
          recommendations =
            (case offcampusJobs of
               None \<Rightarrow> []
             | Some jobs \<Rightarrow> process_jobs ss avgMockScore avgInterviewScore jobs [])
      in sort_key (\<lambda>r. - match_score r) recommendations)"

text \<open>
  Persisting: the rows of the student are deleted from \<open>job_recommendations\<close>, then one
  row per recommendation is inserted (no insert when the list is empty). The handler does
  not read the result of the delete: a delete that fails leaves the old rows and the
  handler goes on. A failed insert is the handler's error response; the delete has been
  attempted by then.
\<close>

record recommendation_row =
  student_id :: string
  row_job_id :: string
  row_match_score :: int
  row_skill_match :: int
  row_test_performance :: int
  row_interview_performance :: int
  row_reasons :: "string list"

definition row_of :: "string \<Rightarrow> JobRecommendation \<Rightarrow> recommendation_row" where
  "row_of uid r =
     \<lparr> student_id = uid, row_job_id = rec_job_id r, row_match_score = match_score r,
       row_skill_match = skill_match r, row_test_performance = test_performance r,
       row_interview_performance = interview_performance r, row_reasons = reasons r \<rparr>"

definition persist ::
  "bool \<Rightarrow> bool \<Rightarrow> string \<Rightarrow> JobRecommendation list \<Rightarrow> recommendation_row list
     \<Rightarrow> string + recommendation_row list"
where
  "persist delete_fails insert_fails uid recommendations tbl =
     (let tbl1 = (if delete_fails then tbl else filter (\<lambda>row. student_id row \<noteq> uid) tbl)
      in if length recommendations > 0
         then (if insert_fails then Inl ''insertError''
               else Inr (tbl1 @ map (row_of uid) recommendations))
         else Inr tbl1)"

section \<open>The one-time-code provisioner\<close>

subsection \<open>Requests, responses and the datastore\<close>

text \<open>
  A request is the preflight, a POST whose JSON body was read into the handler's fields,
  or a POST whose body cannot be read (\<open>req.json()\<close> throws into the handler's
  \<open>catch\<close>). An absent field is \<open>None\<close>.
\<close>

datatype 'a http_request = Options | Post 'a | Unreadable string

datatype body =
    NoBody
  | ErrorBody string "string option"
  | SuccessBody string "string option"

record response =
  status :: nat
  body :: body

definition error_response :: "nat \<Rightarrow> string \<Rightarrow> response" where
  "error_response st msg = \<lparr> status = st, body = ErrorBody msg None \<rparr>"

definition falsy :: "string option \<Rightarrow> bool" where
  "falsy v = (case v of None \<Rightarrow> True | Some s \<Rightarrow> s = [])"

record otp_row =
  otp_id :: nat
  otp_email :: string
  otp_code :: string
  created_at :: int
  expires_at :: int
  verified :: bool
  attempts :: int

record auth_user =
  user_id :: nat
  user_email :: string
  user_password :: string
  meta_name :: "string option"
  meta_department :: "string option"

record profile =
  profile_id :: nat
  profile_email :: string
  profile_name :: "string option"
  profile_department :: "string option"
  temp_password_used :: bool
  tenth_percentage :: "rat option"
  twelfth_percentage :: "rat option"
  cgpa :: "rat option"

record mail =
  mail_to :: string
  mail_subject :: string
  mail_code :: string

text \<open>
  The tables the two handlers touch, in insertion order, and the mails handed to the
  SMTP relay. Times are milliseconds since the epoch.
\<close>

record store =
  otp_verifications :: "otp_row list"
  users :: "auth_user list"
  user_roles :: "(nat \<times> string) list"
  profiles :: "profile list"
  pre_registered_students :: "string list"
  pre_registered_teachers :: "string list"
  outbox :: "mail list"

text \<open>
  \<open>.maybeSingle()\<close>: no row gives null, one row gives the row, several rows give an
  error and no data.
\<close>

fun maybeSingle :: "'a list \<Rightarrow> 'a option" where
  "maybeSingle [x] = Some x"
| "maybeSingle _ = None"

subsection \<open>Decimal strings\<close>

definition digit_char :: "nat \<Rightarrow> char" where
  "digit_char d = char_of (48 + d)"

fun digits_of :: "nat \<Rightarrow> string" where
  "digits_of n = (if n < 10 then [digit_char n] else digits_of (n div 10) @ [digit_char (n mod 10)])"

declare digits_of.simps [simp del]

text \<open>\<open>Number.prototype.toString\<close> on an integer.\<close>

definition toString :: "int \<Rightarrow> string" where
  "toString i = (if i < 0 then CHR ''-'' # digits_of (nat (- i)) else digits_of (nat i))"

subsection \<open>Issuing a code\<close>

text \<open>
  What the handler cannot decide by itself is its environment: the value of
  \<open>Math.random()\<close> (a double, at least 0, below 1), the clock, the identifier the table
  gives the new row, and which calls fail. The handler reads the error of the lookups and
  of the insert; it does not read the result of the delete, so a delete that fails leaves
  the rows in place and the handler goes on.
\<close>

record send_env =
  random :: rat
  send_now :: int
  new_otp_id :: nat
  preRegError :: bool
  send_profileError :: bool
  deleteError :: bool
  insertError :: bool
  smtpError :: "string option"

record SendOTPRequest =
  sr_email :: "string option"
  sr_name :: "string option"
  sr_purpose :: "string option"
  sr_role :: "string option"

definition generate_otp :: "rat \<Rightarrow> string" where
  "generate_otp r = toString \<lfloor>fadd 100000 (fmul r 900000)\<rfloor>"

definition not_preregistered :: "send_env \<Rightarrow> string list \<Rightarrow> string \<Rightarrow> bool" where
  "not_preregistered env tbl e =
     (if preRegError env then True
      else maybeSingle (filter (\<lambda>x. x = e) tbl) = None)"

definition no_profile :: "send_env \<Rightarrow> store \<Rightarrow> string \<Rightarrow> bool" where
  "no_profile env st e =
     (send_profileError env
      \<or> maybeSingle (filter (\<lambda>p. profile_email p = e) (profiles st)) = None)"

definition delete_unverified :: "string \<Rightarrow> otp_row list \<Rightarrow> otp_row list" where
  "delete_unverified e tbl = filter (\<lambda>row. \<not> (otp_email row = e \<and> verified row = False)) tbl"

definition issue :: "send_env \<Rightarrow> string \<Rightarrow> string \<Rightarrow> store \<Rightarrow> response \<times> store" where
  "issue env e purpose st =
     (let otp = generate_otp (random env);
          expiresAt = send_now env + 10 * 60 * 1000;
          st1 = (if deleteError env then st
                 else st\<lparr> otp_verifications := delete_unverified e (otp_verifications st) \<rparr>)
      in if insertError env
         then (error_response 500 ''Failed to generate OTP'', st1)
         else
           (let st2 = st1\<lparr> otp_verifications := otp_verifications st1 @
                       [\<lparr> otp_id = new_otp_id env, otp_email = e, otp_code = otp,
                          created_at = send_now env, expires_at = expiresAt,
                          verified = False, attempts = 0 \<rparr>] \<rparr>
            in case smtpError env of
                 Some msg \<Rightarrow> (error_response 500 msg, st2)
               | None \<Rightarrow>
                   (\<lparr> status = 200, body = SuccessBody ''OTP sent successfully'' None \<rparr>,
                    st2\<lparr> outbox := outbox st2 @
                       [\<lparr> mail_to = e,
                          mail_subject = (if purpose = ''reset'' then ''Password Reset Code''
                                          else ''Your Verification Code''),
                          mail_code = otp \<rparr>] \<rparr>)))"

text \<open>The checks before issuance; \<open>None\<close> lets the request through.\<close>

definition signup_gate :: "send_env \<Rightarrow> string \<Rightarrow> string \<Rightarrow> store \<Rightarrow> response option" where
  "signup_gate env role e st =
     (if role = ''teacher''
      then (if not_preregistered env (pre_registered_teachers st) e
            then Some \<lparr> status = 403,
                   body = ErrorBody
                     ''This email is not registered by TPO as a teacher. Please contact placement office.''
                     (Some ''EMAIL_NOT_PREREGISTERED'') \<rparr>
            else None)
      else (if not_preregistered env (pre_registered_students st) e
            then Some \<lparr> status = 403,
                   body = ErrorBody
                     ''This email is not registered by TPO. Please contact placement office.''
                     (Some ''EMAIL_NOT_PREREGISTERED'') \<rparr>
            else None))"

definition reset_gate :: "send_env \<Rightarrow> string \<Rightarrow> store \<Rightarrow> response option" where
  "reset_gate env e st =
     (if no_profile env st e then Some (error_response 404 ''Email not found in our system'')
      else None)"

definition send_otp ::
  "send_env \<Rightarrow> SendOTPRequest http_request \<Rightarrow> store \<Rightarrow> response \<times> store"
where
  "send_otp env req st =
     (case req of
        Options \<Rightarrow> (\<lparr> status = 200, body = NoBody \<rparr>, st)
      | Unreadable msg \<Rightarrow> (error_response 500 msg, st)
      | Post r \<Rightarrow>
          (let purpose = (case sr_purpose r of None \<Rightarrow> ''signup'' | Some p \<Rightarrow> p);
               role = (case sr_role r of None \<Rightarrow> ''student'' | Some x \<Rightarrow> x)
           in case sr_email r of
                None \<Rightarrow> (error_response 400 ''Email is required'', st)
              | Some e \<Rightarrow>
                  if e = [] then (error_response 400 ''Email is required'', st)
                  else
                    (case (if purpose = ''signup'' then signup_gate env role e st else None) of
                       Some refusal \<Rightarrow> (refusal, st)
                     | None \<Rightarrow>
                         (case (if purpose = ''reset'' then reset_gate env e st else None) of
                            Some refusal \<Rightarrow> (refusal, st)
                          | None \<Rightarrow> issue env e purpose st))))"

subsection \<open>Verifying a code\<close>

record verify_env =
  now :: int
  fetchError :: bool
  listUsersError :: bool
  signUpError :: bool
  roleError :: bool
  profileError :: bool
  updateError :: bool
  tempPassword :: string
  new_user_id :: nat

record VerifyOTPRequest =
  vr_email :: "string option"
  vr_otp :: "string option"
  vr_name :: "string option"
  vr_department :: "string option"
  vr_role :: "string option"
  vr_purpose :: "string option"
  vr_tenthPercentage :: "rat option"
  vr_twelfthPercentage :: "rat option"
  vr_cgpa :: "rat option"

text \<open>
  The lookup: the unverified rows of the email, the most recently created first, at most
  one row. Among rows created at the same instant the earliest inserted is taken.
\<close>

fun newest :: "otp_row \<Rightarrow> otp_row list \<Rightarrow> otp_row" where
  "newest best [] = best"
| "newest best (x # xs) = newest (if created_at x > created_at best then x else best) xs"

definition find_otp :: "string \<Rightarrow> otp_row list \<Rightarrow> otp_row option" where
  "find_otp e tbl =
     (case filter (\<lambda>row. otp_email row = e \<and> verified row = False) tbl of
        [] \<Rightarrow> None
      | x # xs \<Rightarrow> Some (newest x xs))"

definition update_otp :: "nat \<Rightarrow> (otp_row \<Rightarrow> otp_row) \<Rightarrow> store \<Rightarrow> store" where
  "update_otp i f st =
     st\<lparr> otp_verifications := map (\<lambda>row. if otp_id row = i then f row else row) (otp_verifications st) \<rparr>"

text \<open>
  \<open>auth.admin.listUsers()\<close> is taken to return every account; a failed call returns no
  data. A field that is \<open>undefined\<close> in an update object is not sent, so its column keeps
  its value.
\<close>

definition listUsers :: "verify_env \<Rightarrow> store \<Rightarrow> auth_user list option" where
  "listUsers env st = (if listUsersError env then None else Some (users st))"

definition success_response :: "verify_env \<Rightarrow> response" where
  "success_response env =
     \<lparr> status = 200, body = SuccessBody ''OTP verified successfully'' (Some (tempPassword env)) \<rparr>"

definition signup ::
  "verify_env \<Rightarrow> VerifyOTPRequest \<Rightarrow> string \<Rightarrow> string \<Rightarrow> otp_row \<Rightarrow> store \<Rightarrow> response \<times> store"
where
  "signup env r e role otpRecord st =
     (let userExists =
            (case listUsers env st of
               None \<Rightarrow> False
             | Some us \<Rightarrow> list_ex (\<lambda>u. user_email u = e) us)
      in if userExists
         then (error_response 400 ''A user with this email already exists. Please login instead.'', st)
         else if signUpError env
         then (error_response 500 ''Failed to create user account'', st)
         else
           (let st1 = st\<lparr> users := users st @
                       [\<lparr> user_id = new_user_id env, user_email = e,
                          user_password = tempPassword env, meta_name = vr_name r,
                          meta_department = vr_department r \<rparr>] \<rparr>;
                st2 = (if roleError env then st1
                       else st1\<lparr> user_roles := user_roles st1 @ [(new_user_id env, role)] \<rparr>);
                st3 = (if profileError env then st2
                       else st2\<lparr> profiles := map (\<lambda>p.
                              if profile_id p = new_user_id env
                              then p\<lparr> profile_name := vr_name r,
                                     profile_department :=
                                       (case vr_department r of None \<Rightarrow> profile_department p
                                        | Some d \<Rightarrow> Some d),
                                     temp_password_used := False,
                                     tenth_percentage :=
                                       (case vr_tenthPercentage r of None \<Rightarrow> tenth_percentage p
                                        | Some v \<Rightarrow> Some v),
                                     twelfth_percentage :=
                                       (case vr_twelfthPercentage r of None \<Rightarrow> twelfth_percentage p
                                        | Some v \<Rightarrow> Some v),
                                     cgpa := (case vr_cgpa r of None \<Rightarrow> cgpa p | Some v \<Rightarrow> Some v) \<rparr>
                              else p) (profiles st2) \<rparr>)
            in (success_response env,
                update_otp (otp_id otpRecord) (\<lambda>row. row\<lparr> verified := True \<rparr>) st3)))"

definition reset :: "verify_env \<Rightarrow> string \<Rightarrow> otp_row \<Rightarrow> store \<Rightarrow> response \<times> store" where
  "reset env e otpRecord st =
     (case (case listUsers env st of None \<Rightarrow> None | Some us \<Rightarrow> find (\<lambda>u. user_email u = e) us) of
        None \<Rightarrow> (success_response env, st)
      | Some user \<Rightarrow>
          if updateError env then (error_response 500 ''Failed to update password'', st)
          else
            (let st1 = st\<lparr> users := map (\<lambda>u. if user_id u = user_id user
                                              then u\<lparr> user_password := tempPassword env \<rparr> else u)
                                      (users st) \<rparr>;
                 st2 = st1\<lparr> profiles := map (\<lambda>p. if profile_id p = user_id user
                                                 then p\<lparr> temp_password_used := False \<rparr> else p)
                                         (profiles st1) \<rparr>
             in (success_response env,
                 update_otp (otp_id otpRecord) (\<lambda>row. row\<lparr> verified := True \<rparr>) st2)))"

definition check_code ::
  "verify_env \<Rightarrow> VerifyOTPRequest \<Rightarrow> string \<Rightarrow> string \<Rightarrow> store \<Rightarrow> response \<times> store"
where
  "check_code env r e otp st =
     (if fetchError env then (error_response 500 ''Failed to verify OTP'', st)
      else case find_otp e (otp_verifications st) of
        None \<Rightarrow> (error_response 404 ''No OTP found for this email'', st)
      | Some otpRecord \<Rightarrow>
          if expires_at otpRecord < now env
          then (error_response 400 ''OTP has expired'', st)
          else if attempts otpRecord \<ge> 5
          then (error_response 400 ''Too many failed attempts. Please request a new OTP'', st)
          else if trim (otp_code otpRecord) \<noteq> trim otp
          then
            (let st1 = update_otp (otp_id otpRecord)
                         (\<lambda>row. row\<lparr> attempts := attempts otpRecord + 1 \<rparr>) st;
                 remainingAttempts = 5 - (attempts otpRecord + 1)
             in (error_response 400
                   (if remainingAttempts > 0
                    then ''Invalid OTP. '' @ toString remainingAttempts
                         @ '' attempts remaining. Please check your email for the most recent code.''
                    else ''Too many failed attempts. Please request a new OTP.''),
                 st1))
          else
            (let purpose = (case vr_purpose r of None \<Rightarrow> ''signup'' | Some p \<Rightarrow> p)
             in if purpose = ''signup'' \<and> \<not> falsy (vr_name r) \<and> \<not> falsy (vr_role r)
                then signup env r e (case vr_role r of None \<Rightarrow> [] | Some x \<Rightarrow> x) otpRecord st
                else if purpose = ''reset'' then reset env e otpRecord st
                else (success_response env, st)))"

definition verify_otp ::
  "verify_env \<Rightarrow> VerifyOTPRequest http_request \<Rightarrow> store \<Rightarrow> response \<times> store"
where
  "verify_otp env req st =
     (case req of
        Options \<Rightarrow> (\<lparr> status = 200, body = NoBody \<rparr>, st)
      | Unreadable msg \<Rightarrow> (error_response 500 msg, st)
      | Post r \<Rightarrow>
          (case (vr_email r, vr_otp r) of
             (Some e, Some otp) \<Rightarrow>
               if e = [] \<or> otp = [] then (error_response 400 ''Email and OTP are required'', st)
               else check_code env r e otp st
           | _ \<Rightarrow> (error_response 400 ''Email and OTP are required'', st)))"

section \<open>The spec's notion of a matched skill\<close>



section \<open>Example data\<close>

text \<open>Concrete rows, stores, environments and requests, used where a theorem is run.\<close>

definition example_row :: otp_row where
  "example_row =
     \<lparr> otp_id = 1, otp_email = ''asha@college.edu'', otp_code = ''123456'',
       created_at = 1000, expires_at = 601000, verified = False, attempts = 0 \<rparr>"

definition example_store :: "otp_row list \<Rightarrow> store" where
  "example_store rows =
     \<lparr> otp_verifications = rows, users = [], user_roles = [], profiles = [],
       pre_registered_students = [''asha@college.edu''], pre_registered_teachers = [],
       outbox = [] \<rparr>"

definition example_verify_env :: "int \<Rightarrow> verify_env" where
  "example_verify_env t =
     \<lparr> now = t, fetchError = False, listUsersError = False, signUpError = False,
       roleError = False, profileError = False, updateError = False,
       tempPassword = ''k3j9x0q2m4p7z1a8b5c6d2e9'', new_user_id = 7 \<rparr>"

definition example_verify_request :: "string \<Rightarrow> string \<Rightarrow> VerifyOTPRequest" where
  "example_verify_request otp purpose =
     \<lparr> vr_email = Some ''asha@college.edu'', vr_otp = Some otp, vr_name = None,
       vr_department = None, vr_role = None, vr_purpose = Some purpose,
       vr_tenthPercentage = None, vr_twelfthPercentage = None, vr_cgpa = None \<rparr>"

definition example_send_env :: send_env where
  "example_send_env =
     \<lparr> random = 150119987579 / 2 ^ 52, send_now = 5000, new_otp_id = 9, preRegError = False,
       send_profileError = False, deleteError = False, insertError = False,
       smtpError = None \<rparr>"

definition example_send_request :: SendOTPRequest where
  "example_send_request =
     \<lparr> sr_email = Some ''asha@college.edu'', sr_name = Some ''Asha'', sr_purpose = None,
       sr_role = None \<rparr>"

section \<open>Facts about double-precision rounding\<close>

lemma pow2_succ: "(2::rat) powi (e + 1) = 2 * 2 powi e"
  by (simp add: power_int_add)

lemma pow2_pred: "(2::rat) powi (e - 1) = 2 powi e / 2"
  by (simp add: power_int_diff)

lemma pow2_less_iff: "(2::rat) powi a < 2 powi b \<longleftrightarrow> a < b"
proof
  assume l: "(2::rat) powi a < 2 powi b"
  show "a < b"
  proof (rule ccontr)
    assume "\<not> a < b"
    then have "b \<le> a" by simp
    then have "(2::rat) powi b \<le> 2 powi a" by (rule power_int_increasing) simp
    with l show False by simp
  qed
next
  assume "a < b"
  then show "(2::rat) powi a < 2 powi b" by (rule power_int_strict_increasing) simp
qed

lemma pow2_le_iff: "(2::rat) powi a \<le> 2 powi b \<longleftrightarrow> a \<le> b"
  using pow2_less_iff [of b a] by (simp add: not_less [symmetric])

lemma expo_bounds: "0 < x \<Longrightarrow> 2 powi (expo x) \<le> x \<and> x < 2 powi (expo x + 1)"
proof (induction x rule: expo.induct)
  case (1 x)
  show ?case
  proof (cases "2 \<le> x")
    case True
    let ?e = "expo (x / 2)"
    from True "1.prems" have e: "expo x = ?e + 1" by (subst expo.simps) simp
    from True "1.prems" "1.IH"(1) have ih: "2 powi ?e \<le> x / 2" "x / 2 < 2 powi (?e + 1)"
      by simp_all
    have "(2::rat) powi (?e + 1) = 2 * 2 powi ?e" by (rule pow2_succ)
    with ih(1) have lo: "2 powi (?e + 1) \<le> x" by linarith
    have "(2::rat) powi (?e + 1 + 1) = 2 * 2 powi (?e + 1)" by (rule pow2_succ)
    with ih(2) have "x < 2 powi (?e + 1 + 1)" by linarith
    with lo show ?thesis by (simp only: e)
  next
    case False
    show ?thesis
    proof (cases "x < 1")
      case True
      let ?e = "expo (x * 2)"
      from True False "1.prems" have e: "expo x = ?e - 1" by (subst expo.simps) simp
      from True False "1.prems" "1.IH"(2) have ih: "2 powi ?e \<le> x * 2" "x * 2 < 2 powi (?e + 1)"
        by simp_all
      have "(2::rat) powi (?e - 1) = 2 powi ?e / 2" by (rule pow2_pred)
      with ih(1) have lo: "2 powi (?e - 1) \<le> x" by linarith
      have "(2::rat) powi (?e + 1) = 2 * 2 powi ?e" by (rule pow2_succ)
      with ih(2) have "x < 2 powi ?e" by linarith
      then have "x < 2 powi (?e - 1 + 1)" by simp
      with lo show ?thesis by (simp only: e)
    next
      case ge: False
      with False "1.prems" have e: "expo x = 0" by (subst expo.simps) simp
      from ge False show ?thesis unfolding e by simp
    qed
  qed
qed

lemma expo_unique:
  assumes "2 powi e \<le> x" and "x < 2 powi (e + 1)"
  shows "expo x = e"
proof -
  have "(0::rat) < 2 powi e" by simp
  with assms(1) have pos: "0 < x" by linarith
  from expo_bounds [OF pos] have b: "2 powi (expo x) \<le> x" "x < 2 powi (expo x + 1)" by simp_all
  from b(1) assms(2) have "(2::rat) powi (expo x) < 2 powi (e + 1)" by linarith
  then have "expo x < e + 1" by (simp add: pow2_less_iff)
  moreover from assms(1) b(2) have "(2::rat) powi e < 2 powi (expo x + 1)" by linarith
  then have "e < expo x + 1" by (simp add: pow2_less_iff)
  ultimately show ?thesis by simp
qed

lemma expo_mono:
  assumes "0 < x" and "x \<le> y"
  shows "expo x \<le> expo y"
proof -
  from assms have "0 < y" by simp
  from expo_bounds [OF assms(1)] expo_bounds [OF this] assms(2)
  have "(2::rat) powi (expo x) < 2 powi (expo y + 1)" by linarith
  then have "expo x < expo y + 1" by (simp add: pow2_less_iff)
  then show ?thesis by simp
qed

lemma rne_range: "\<lfloor>y\<rfloor> \<le> round_half_even y \<and> round_half_even y \<le> \<lfloor>y\<rfloor> + 1"
  by (simp add: round_half_even_def Let_def)

lemma rne_error: "\<bar>of_int (round_half_even y) - y\<bar> \<le> 1 / 2"
proof -
  have "of_int \<lfloor>y\<rfloor> \<le> y" "y < of_int \<lfloor>y\<rfloor> + 1" by linarith+
  then show ?thesis
    by (auto simp: round_half_even_def Let_def abs_le_iff)
qed

lemma rne_of_int [simp]: "round_half_even (of_int n) = n"
  by (simp add: round_half_even_def)

lemma rne_zero [simp]: "round_half_even 0 = 0"
  using rne_of_int [of 0] by simp

lemma rne_mono:
  assumes "x \<le> y"
  shows "round_half_even x \<le> round_half_even y"
proof (cases "\<lfloor>x\<rfloor> < \<lfloor>y\<rfloor>")
  case True
  from rne_range [of x] rne_range [of y] True show ?thesis by linarith
next
  case False
  with assms have eq: "\<lfloor>x\<rfloor> = \<lfloor>y\<rfloor>" using floor_mono [of x y] by simp
  from assms have "x - of_int \<lfloor>y\<rfloor> \<le> y - of_int \<lfloor>y\<rfloor>" by simp
  then show ?thesis
    by (auto simp: round_half_even_def Let_def eq)
qed

lemma rne_ge: "of_int a \<le> y \<Longrightarrow> a \<le> round_half_even y"
  using rne_mono [of "of_int a" y] by simp

lemma rne_le: "y \<le> of_int b \<Longrightarrow> round_half_even y \<le> b"
  using rne_mono [of y "of_int b"] by simp

lemma rne_minus: "round_half_even (- y) = - round_half_even y"
proof (cases "y = of_int \<lfloor>y\<rfloor>")
  case True
  then obtain n where "y = of_int n" ..
  then have "- y = of_int (- n)" by simp
  then show ?thesis using \<open>y = of_int n\<close> by (simp only: rne_of_int)
next
  case False
  then have lt: "of_int \<lfloor>y\<rfloor> < y" "y < of_int \<lfloor>y\<rfloor> + 1"
    by linarith+
  then have fl: "\<lfloor>- y\<rfloor> = - \<lfloor>y\<rfloor> - 1"
    by (simp add: floor_eq_iff)
  show ?thesis
    using lt by (auto simp: round_half_even_def Let_def fl)
qed

lemma pow2_split:
  assumes "b \<le> a"
  shows "(2::rat) powi a = of_int (2 ^ nat (a - b)) * 2 powi b"
proof -
  have "(2::rat) powi a = 2 powi ((a - b) + b)" by simp
  also have "\<dots> = 2 powi (a - b) * 2 powi b" by (rule power_int_add) simp
  also have "(2::rat) powi (a - b) = 2 ^ nat (a - b)"
    using assms by (simp add: power_int_nonneg_exp)
  finally show ?thesis by simp
qed

lemma quantum_pos [simp]: "0 < quantum x"
  by (simp add: quantum_def)

lemma quantum_nonzero [simp]: "quantum x \<noteq> 0"
  by (simp add: quantum_def)

lemma quantum_nonneg [simp]: "0 \<le> quantum x"
  by (simp add: quantum_def)

lemma quantum_minus [simp]: "quantum (- x) = quantum x"
  by (simp add: quantum_def)

lemma double_of_minus: "double_of (- x) = - double_of x"
  by (simp add: double_of_def rne_minus)

lemma double_of_zero [simp]: "double_of 0 = 0"
  by (simp add: double_of_def)

lemma scaled_rne_ge:
  assumes "0 < q" and "of_int a * q \<le> x"
  shows "of_int a * q \<le> of_int (round_half_even (x / q)) * q"
proof -
  from assms have "of_int a \<le> x / q" by (simp add: pos_le_divide_eq)
  then have "a \<le> round_half_even (x / q)" by (rule rne_ge)
  then have "(of_int a :: rat) \<le> of_int (round_half_even (x / q))" by simp
  with assms(1) show ?thesis by (simp add: mult_right_mono)
qed

lemma scaled_rne_le:
  assumes "0 < q" and "x \<le> of_int b * q"
  shows "of_int (round_half_even (x / q)) * q \<le> of_int b * q"
proof -
  from assms have "x / q \<le> of_int b" by (simp add: pos_divide_le_eq)
  then have "round_half_even (x / q) \<le> b" by (rule rne_le)
  then have "(of_int (round_half_even (x / q)) :: rat) \<le> of_int b" by simp
  with assms(1) show ?thesis by (simp add: mult_right_mono)
qed

lemma double_of_error: "\<bar>double_of x - x\<bar> \<le> quantum x / 2"
proof -
  let ?q = "quantum x"
  have "double_of x - x = (of_int (round_half_even (x / ?q)) - x / ?q) * ?q"
    by (simp add: double_of_def field_simps)
  then have "\<bar>double_of x - x\<bar> = \<bar>of_int (round_half_even (x / ?q)) - x / ?q\<bar> * ?q"
    by (simp add: abs_mult)
  also have "\<dots> \<le> 1 / 2 * ?q"
    by (intro mult_right_mono rne_error) simp
  finally show ?thesis by simp
qed

lemma double_of_nonneg: "0 \<le> x \<Longrightarrow> 0 \<le> double_of x"
  using scaled_rne_ge [of "quantum x" 0 x] by (simp add: double_of_def)

lemma double_of_upper:
  assumes "0 < x"
  shows "double_of x \<le> 2 powi (max (expo x + 1) (- 1022))"
proof -
  let ?T = "max (expo x + 1) (- 1022)"
  let ?b = "max (expo x) (- 1022) - 52"
  from assms have q: "quantum x = 2 powi ?b" by (simp add: quantum_def)
  have "?b \<le> ?T" by simp
  then have split: "(2::rat) powi ?T = of_int (2 ^ nat (?T - ?b)) * 2 powi ?b"
    by (rule pow2_split)
  from expo_bounds [OF assms] have "x < 2 powi (expo x + 1)" by simp
  also have "(2::rat) powi (expo x + 1) \<le> 2 powi ?T"
    by (simp add: pow2_le_iff)
  finally have "x \<le> of_int (2 ^ nat (?T - ?b)) * 2 powi ?b"
    by (simp only: split)
  then have "of_int (round_half_even (x / 2 powi ?b)) * (2::rat) powi ?b
      \<le> of_int (2 ^ nat (?T - ?b)) * 2 powi ?b"
    by (intro scaled_rne_le) simp_all
  then show ?thesis
    by (simp only: double_of_def q flip: split)
qed

lemma double_of_lower:
  assumes "0 < x" and "- 1022 \<le> expo x"
  shows "2 powi (expo x) \<le> double_of x"
proof -
  let ?b = "expo x - 52"
  from assms have q: "quantum x = 2 powi ?b" by (simp add: quantum_def max_def)
  have "?b \<le> expo x" by simp
  then have split: "(2::rat) powi (expo x) = of_int (2 ^ nat (expo x - ?b)) * 2 powi ?b"
    by (rule pow2_split)
  from expo_bounds [OF assms(1)] have "of_int (2 ^ nat (expo x - ?b)) * 2 powi ?b \<le> x"
    by (simp only: flip: split)
  then have "of_int (2 ^ nat (expo x - ?b)) * (2::rat) powi ?b
      \<le> of_int (round_half_even (x / 2 powi ?b)) * 2 powi ?b"
    by (intro scaled_rne_ge) simp_all
  then show ?thesis
    by (simp only: double_of_def q flip: split)
qed

lemma double_of_mono_pos:
  assumes "0 < x" and "x \<le> y"
  shows "double_of x \<le> double_of y"
proof -
  from assms have ypos: "0 < y" by simp
  have e: "expo x \<le> expo y" using assms by (rule expo_mono)
  show ?thesis
  proof (cases "max (expo x) (- 1022) = max (expo y) (- 1022)")
    case True
    with assms ypos have q: "quantum y = quantum x" by (simp add: quantum_def)
    have "0 \<le> quantum x" by simp
    with assms(2) have "x / quantum x \<le> y / quantum x"
      by (rule divide_right_mono)
    then have "round_half_even (x / quantum x) \<le> round_half_even (y / quantum x)"
      by (rule rne_mono)
    then have "(of_int (round_half_even (x / quantum x)) :: rat)
        \<le> of_int (round_half_even (y / quantum x))"
      by simp
    then show ?thesis
      by (simp add: double_of_def q mult_right_mono)
  next
    case False
    with e have lt: "expo x < expo y" "- 1022 < expo y" by (auto simp: max_def split: if_splits)
    have "double_of x \<le> 2 powi (max (expo x + 1) (- 1022))"
      using assms(1) by (rule double_of_upper)
    also have "\<dots> \<le> 2 powi (expo y)"
      using lt by (simp add: pow2_le_iff)
    also have "\<dots> \<le> double_of y"
      using ypos lt(2) by (intro double_of_lower) simp_all
    finally show ?thesis .
  qed
qed

lemma double_of_mono:
  assumes "x \<le> y"
  shows "double_of x \<le> double_of y"
proof -
  consider "0 < x" | "x \<le> 0" "0 \<le> y" | "y < 0" by linarith
  then show ?thesis
  proof cases
    case 1
    then show ?thesis using assms by (rule double_of_mono_pos)
  next
    case 2
    then have "0 \<le> - x" by simp
    then have "0 \<le> double_of (- x)" by (rule double_of_nonneg)
    then have "double_of x \<le> 0" by (simp add: double_of_minus)
    also have "0 \<le> double_of y" using 2(2) by (rule double_of_nonneg)
    finally show ?thesis .
  next
    case 3
    with assms have "0 < - y" "- y \<le> - x" by simp_all
    then have "double_of (- y) \<le> double_of (- x)" by (rule double_of_mono_pos)
    then show ?thesis by (simp add: double_of_minus)
  qed
qed

lemma expo_less:
  assumes "0 < x" and "x < 2 powi E"
  shows "expo x < E"
proof -
  from expo_bounds [OF assms(1)] assms(2) have "(2::rat) powi (expo x) < 2 powi E" by linarith
  then show ?thesis by (simp only: pow2_less_iff)
qed

lemma div_by_factor: "q \<noteq> 0 \<Longrightarrow> x = c * q \<Longrightarrow> x / q = (c::rat)"
  by simp

lemma double_of_dyadic:
  assumes "\<bar>m\<bar> < 2 ^ 53" and "- 1074 \<le> k"
  shows "double_of (of_int m * 2 powi k) = of_int m * 2 powi k"
proof (cases "m = 0")
  case True
  then show ?thesis by simp
next
  case False
  let ?x = "of_int m * (2::rat) powi k"
  let ?b = "max (expo \<bar>?x\<bar>) (- 1022) - 52"
  have absx: "\<bar>?x\<bar> = of_int \<bar>m\<bar> * 2 powi k" by (simp add: abs_mult)
  from False have pos: "0 < \<bar>?x\<bar>" by simp
  from assms(1) have "(of_int \<bar>m\<bar> :: rat) < of_int (2 ^ 53)" by (simp only: of_int_less_iff)
  then have "(of_int \<bar>m\<bar> :: rat) < 2 powi 53" by simp
  then have "of_int \<bar>m\<bar> * (2::rat) powi k < 2 powi 53 * 2 powi k"
    by (intro mult_strict_right_mono) simp_all
  also have "\<dots> = 2 powi (53 + k)" by (simp add: power_int_add)
  finally have "\<bar>?x\<bar> < 2 powi (53 + k)" by (simp only: absx)
  with pos have "expo \<bar>?x\<bar> < 53 + k" by (rule expo_less)
  with assms(2) have le: "?b \<le> k" by simp
  have q: "quantum ?x = 2 powi ?b" by (simp only: quantum_def)
  from le have "(2::rat) powi k = of_int (2 ^ nat (k - ?b)) * 2 powi ?b" by (rule pow2_split)
  then have xeq: "?x = of_int (m * 2 ^ nat (k - ?b)) * 2 powi ?b" by simp
  then have "?x = of_int (m * 2 ^ nat (k - ?b)) * quantum ?x" by (simp only: q)
  then have "?x / quantum ?x = of_int (m * 2 ^ nat (k - ?b))"
    by (intro div_by_factor) simp_all
  then have "round_half_even (?x / quantum ?x) = m * 2 ^ nat (k - ?b)"
    by (simp only: rne_of_int)
  then have "double_of ?x = of_int (m * 2 ^ nat (k - ?b)) * 2 powi ?b"
    by (simp only: double_of_def q)
  then show ?thesis by (rule trans [OF _ xeq [symmetric]])
qed

lemma double_of_int:
  assumes "\<bar>m\<bar> < 2 ^ 53"
  shows "double_of (of_int m) = of_int m"
  using double_of_dyadic [OF assms, of 0] by simp

lemma double_of_close:
  assumes "\<bar>x\<bar> < 2 powi E" and "- 1021 \<le> E"
  shows "\<bar>double_of x - x\<bar> \<le> 2 powi (E - 54)"
proof (cases "x = 0")
  case True
  then show ?thesis by simp
next
  case False
  then have pos: "0 < \<bar>x\<bar>" by simp
  from pos assms(1) have "expo \<bar>x\<bar> < E" by (rule expo_less)
  with assms(2) have "max (expo \<bar>x\<bar>) (- 1022) - 52 \<le> E - 53" by simp
  then have "quantum x \<le> 2 powi (E - 53)"
    by (simp only: quantum_def pow2_le_iff)
  moreover have "(2::rat) powi (E - 53) = 2 * 2 powi (E - 54)"
    using pow2_succ [of "E - 54"] by simp
  ultimately have "quantum x / 2 \<le> 2 powi (E - 54)" by simp
  with double_of_error [of x] show ?thesis by linarith
qed

lemma double_below_one:
  assumes "is_double r" and "r < 1"
  shows "r \<le> 1 - 1 / 2 ^ 53"
proof (cases "r < 1 / 2")
  case True
  then show ?thesis by simp
next
  case False
  then have half: "1 / 2 \<le> r" by simp
  then have pos: "0 < r" by simp
  have "(2::rat) powi (- 1) \<le> r" using half by (simp add: power_int_minus)
  moreover have "r < 2 powi (- 1 + 1)" using assms(2) by simp
  ultimately have "expo r = - 1" by (rule expo_unique)
  with pos have q: "quantum r = 2 powi (- 53)" by (simp add: quantum_def)
  then have q': "quantum r = 1 / 2 ^ 53" by (simp add: power_int_minus_divide)
  let ?n = "round_half_even (r / quantum r)"
  from assms(1) have r: "r = of_int ?n * quantum r" by (simp add: is_double_def double_of_def)
  with assms(2) have "of_int ?n * (1 / 2 ^ 53) < (1::rat)" by (simp only: q')
  then have "(of_int ?n :: rat) < 2 ^ 53" by (simp add: field_simps)
  then have "(of_int ?n :: rat) < of_int (2 ^ 53)" by simp
  then have "?n < 2 ^ 53" by (simp only: of_int_less_iff)
  then have "?n \<le> 2 ^ 53 - 1" by simp
  then have "(of_int ?n :: rat) \<le> of_int (2 ^ 53 - 1)" by (simp only: of_int_le_iff)
  then have "of_int ?n * (1 / 2 ^ 53) \<le> (of_int (2 ^ 53 - 1) :: rat) * (1 / 2 ^ 53)"
    by (intro mult_right_mono) simp_all
  then have "r \<le> (of_int (2 ^ 53 - 1) :: rat) * (1 / 2 ^ 53)"
    using r by (simp only: q')
  then show ?thesis by simp
qed

lemma rne_eqI:
  assumes "of_int N - 1 / 2 < y" and "y < of_int N + 1 / 2"
  shows "round_half_even y = N"
proof -
  from rne_error [of y] have "\<bar>of_int (round_half_even y) - y\<bar> \<le> 1 / 2" .
  with assms have "(of_int (round_half_even y) :: rat) < of_int N + 1"
    and "(of_int N :: rat) - 1 < of_int (round_half_even y)"
    by linarith+
  then have "(of_int (round_half_even y) :: rat) < of_int (N + 1)"
    and "(of_int (N - 1) :: rat) < of_int (round_half_even y)"
    by simp_all
  then have "round_half_even y < N + 1" and "N - 1 < round_half_even y"
    by (simp_all only: of_int_less_iff)
  then show ?thesis by simp
qed

text \<open>
  How a rounding is checked at a given number: the binade \<open>e\<close> of \<open>x\<close>, the quantum
  \<open>q\<close> there, and the multiple \<open>N\<close> of \<open>q\<close> that is nearer to \<open>x\<close> than half of \<open>q\<close>.
\<close>

lemma double_of_eqI:
  assumes "2 powi e \<le> \<bar>x\<bar>" and "\<bar>x\<bar> < 2 powi (e + 1)" and "- 1022 \<le> e"
    and "q = 2 powi (e - 52)"
    and "of_int N * q - q / 2 < x" and "x < of_int N * q + q / 2"
    and "c = of_int N * q"
  shows "double_of x = c"
proof -
  from assms(1,2) have "expo \<bar>x\<bar> = e" by (rule expo_unique)
  with assms(3,4) have q: "quantum x = q" by (simp add: quantum_def)
  have qpos: "0 < q" by (simp add: assms(4))
  from assms(5) qpos have "of_int N - 1 / 2 < x / q"
    by (simp add: pos_less_divide_eq field_simps)
  moreover from assms(6) qpos have "x / q < of_int N + 1 / 2"
    by (simp add: pos_divide_less_eq field_simps)
  ultimately have "round_half_even (x / q) = N" by (rule rne_eqI)
  then show ?thesis by (simp add: double_of_def q assms(7))
qed

lemma rne_tie:
  assumes "y = of_int n + 1 / 2"
  shows "round_half_even y = (if even n then n else n + 1)"
proof -
  have "\<lfloor>y\<rfloor> = n" unfolding assms by (simp add: floor_eq_iff)
  then show ?thesis by (simp add: round_half_even_def Let_def assms)
qed

lemma double_of_tieI:
  assumes "2 powi e \<le> \<bar>x\<bar>" and "\<bar>x\<bar> < 2 powi (e + 1)" and "- 1022 \<le> e"
    and "q = 2 powi (e - 52)"
    and "x = of_int n * q + q / 2"
    and "c = of_int (if even n then n else n + 1) * q"
  shows "double_of x = c"
proof -
  from assms(1,2) have "expo \<bar>x\<bar> = e" by (rule expo_unique)
  with assms(3,4) have q: "quantum x = q" by (simp add: quantum_def)
  have qpos: "0 < q" by (simp add: assms(4))
  then have "x / q = of_int n + 1 / 2" by (simp add: assms(5) field_simps)
  then have "round_half_even (x / q) = (if even n then n else n + 1)" by (rule rne_tie)
  then show ?thesis by (simp only: double_of_def q assms(6))
qed

section \<open>Facts about the string functions\<close>








lemma str_includes_char: "str_includes s [c] \<longleftrightarrow> c \<in> set s"
  by (induction s) auto

lemma Math_round_nearest: "\<bar>of_int (Math_round x) - x\<bar> \<le> 1 / 2"
  unfolding Math_round_def by linarith

lemma Math_round_ge_15: "15 \<le> x \<Longrightarrow> 15 \<le> Math_round x"
  unfolding Math_round_def by (simp add: le_floor_iff)

section \<open>Facts about the recommender\<close>

lemma keep_student_skill_iff:
  "keep_student_skill v \<longleftrightarrow>
     (\<exists>s. v = JStr s \<and> length s > 1
        \<and> CHR ''['' \<notin> set s \<and> CHR ''='' \<notin> set s \<and> CHR ''{'' \<notin> set s)"
  by (cases v) (auto simp: keep_student_skill_def str_includes_char)

lemma keep_parsed_skill_iff:
  "keep_parsed_skill v \<longleftrightarrow>
     (\<exists>s. v = JStr s \<and> 2 \<le> length s \<and> length s \<le> 50
        \<and> CHR ''['' \<notin> set s \<and> CHR ''='' \<notin> set s \<and> CHR ''{'' \<notin> set s)"
  by (cases v) (auto simp: keep_parsed_skill_def str_includes_char)

lemma count_matches_filter:
  "count_matches ss js m =
     m + length (filter (\<lambda>j. list_ex (\<lambda>s. str_includes s j \<or> str_includes j s) ss) js)"
  by (induction js arbitrary: m) auto

lemma process_jobs_filter:
  "process_jobs ss am ai js acc =
     acc @ map (recommendation_of ss am ai) (filter (\<lambda>j. matchScore_of ss am ai j \<ge> 15) js)"
  by (induction js arbitrary: acc) auto

lemma recommend_Some:
  "recommend resume_skills mockResults interviews (Some jobs) =
     sort_key (\<lambda>r. - match_score r)
       (map (recommendation_of (cleanStudentSkills resume_skills) (average mockResults)
               (average interviews))
          (filter (\<lambda>j. matchScore_of (cleanStudentSkills resume_skills) (average mockResults)
                      (average interviews) j \<ge> 15) jobs))"
  by (simp add: recommend_def Let_def process_jobs_filter)

lemma matchScore_of_recommendation:
  assumes "recommendation_of ss am ai j = recommendation_of ss am ai j'"
  shows "matchScore_of ss am ai j = matchScore_of ss am ai j'"
proof -
  from assms have "rec_skills_required (recommendation_of ss am ai j)
      = rec_skills_required (recommendation_of ss am ai j')"
    by simp
  then have "jobSkills_of j = jobSkills_of j'"
    by (simp add: recommendation_of_def)
  then show ?thesis
    by (simp add: matchScore_of_def skillMatch_double_of_def)
qed

lemma count_matches_le: "count_matches ss js 0 \<le> length js"
  by (simp add: count_matches_filter)

lemma double_of_one: "double_of 1 = 1"
  using double_of_int [of 1] by simp

lemma double_of_numeral:
  "numeral k < (2::int) ^ 53 \<Longrightarrow> double_of (numeral k) = numeral k"
  using double_of_int [of "numeral k"] by simp

lemma calculateSkillMatch_double_range:
  "0 \<le> calculateSkillMatch_double ss js \<and> calculateSkillMatch_double ss js \<le> 100"
proof (cases "length js = 0 \<or> length ss = 0")
  case True
  then show ?thesis by (simp add: calculateSkillMatch_double_def)
next
  case False
  let ?m = "count_matches ss js 0"
  let ?q = "fdiv (of_nat ?m) (of_nat (length js))"
  from False have n: "0 < length js" by simp
  have "(of_nat ?m :: rat) \<le> of_nat (length js)"
    using count_matches_le [of ss js] by (simp only: of_nat_le_iff)
  with n have le1: "(of_nat ?m :: rat) / of_nat (length js) \<le> 1" by (simp add: divide_le_eq)
  have ge0: "(0::rat) \<le> of_nat ?m / of_nat (length js)" by simp
  from ge0 have q0: "0 \<le> ?q" unfolding fdiv_def by (rule double_of_nonneg)
  from le1 have "double_of (of_nat ?m / of_nat (length js)) \<le> double_of 1"
    by (rule double_of_mono)
  then have q1: "?q \<le> 1" by (simp add: fdiv_def double_of_numeral flip: numeral_One)
  from q0 have "0 \<le> ?q * 100" by simp
  then have lo: "0 \<le> fmul ?q 100" unfolding fmul_def by (rule double_of_nonneg)
  from q1 have "?q * 100 \<le> 100" by simp
  then have "double_of (?q * 100) \<le> double_of 100" by (rule double_of_mono)
  then have hi: "fmul ?q 100 \<le> 100" by (simp add: fmul_def double_of_numeral)
  from False lo hi show ?thesis by (simp add: calculateSkillMatch_double_def)
qed

text \<open>
  The rounding error of the composite: five operations on numbers below 128.
\<close>

lemma weighted_sum_close:
  assumes "0 \<le> s" and "s \<le> 100" and "0 \<le> a" and "a \<le> 100" and "0 \<le> i" and "i \<le> 100"
  shows "\<bar>fadd (fadd (fmul s (1 / 2)) (fmul a (1 / 4))) (fmul i (1 / 4))
          - (1 / 2 * s + 1 / 4 * a + 1 / 4 * i)\<bar> \<le> 1 / 2 ^ 44"
proof -
  have p7: "(2::rat) powi 7 = 128" by simp
  have e7: "(2::rat) powi (7 - 54) = 1 / 140737488355328" by (simp add: power_int_minus_divide)
  have close: "\<bar>double_of x - x\<bar> \<le> 1 / 140737488355328" if "\<bar>x\<bar> < 128" for x
  proof -
    from that have "\<bar>x\<bar> < 2 powi 7" by (simp only: p7)
    then have "\<bar>double_of x - x\<bar> \<le> 2 powi (7 - 54)" by (rule double_of_close) simp
    then show ?thesis by (simp only: e7)
  qed
  let ?p1 = "fmul s (1 / 2)" and ?p2 = "fmul a (1 / 4)" and ?p3 = "fmul i (1 / 4)"
  from assms have "\<bar>s * (1 / 2)\<bar> < 128" "\<bar>a * (1 / 4)\<bar> < 128" "\<bar>i * (1 / 4)\<bar> < 128"
    by simp_all
  then have c1: "\<bar>?p1 - s * (1 / 2)\<bar> \<le> 1 / 140737488355328"
    and c2: "\<bar>?p2 - a * (1 / 4)\<bar> \<le> 1 / 140737488355328"
    and c3: "\<bar>?p3 - i * (1 / 4)\<bar> \<le> 1 / 140737488355328"
    unfolding fmul_def by (simp_all only: close)
  from c1 c2 assms have "\<bar>?p1 + ?p2\<bar> < 128" by linarith
  then have c4: "\<bar>fadd ?p1 ?p2 - (?p1 + ?p2)\<bar> \<le> 1 / 140737488355328"
    unfolding fadd_def by (rule close)
  from c1 c2 c3 c4 assms have "\<bar>fadd ?p1 ?p2 + ?p3\<bar> < 128" by linarith
  then have c5: "\<bar>fadd (fadd ?p1 ?p2) ?p3 - (fadd ?p1 ?p2 + ?p3)\<bar> \<le> 1 / 140737488355328"
    unfolding fadd_def by (rule close)
  from c1 c2 c3 c4 c5 have "\<bar>fadd (fadd ?p1 ?p2) ?p3 - (1 / 2 * s + 1 / 4 * a + 1 / 4 * i)\<bar>
      \<le> 5 / 140737488355328"
    by linarith
  also have "(5::rat) / 140737488355328 \<le> 1 / 2 ^ 44" by simp
  finally show ?thesis .
qed

lemma Math_round_eqI:
  assumes "of_int N \<le> x + 1 / 2" and "x + 1 / 2 < of_int N + 1"
  shows "Math_round x = N"
  using assms by (simp add: Math_round_def floor_eq_iff)



section \<open>Facts about decimal strings\<close>

lemma digit_chars:
  "digit_char 0 = CHR ''0''" "digit_char 1 = CHR ''1''" "digit_char (Suc 0) = CHR ''1''"
  "digit_char 3 = CHR ''3''"
  by code_simp+

lemma digit_char_image: "digit_char ` {0..<10} = set ''0123456789''"
  by code_simp

lemma digit_char_decimal:
  assumes "d < 10"
  shows "digit_char d \<in> set ''0123456789''"
proof -
  from assms have "digit_char d \<in> digit_char ` {0..<10}" by simp
  then show ?thesis by (simp only: digit_char_image)
qed

lemma digit_char_nonzero:
  assumes "0 < d" and "d < 10"
  shows "digit_char d \<noteq> CHR ''0''"
proof
  assume "digit_char d = CHR ''0''"
  then have "(of_char (digit_char d) :: nat) = of_char (digit_char 0)"
    by (simp only: digit_chars)
  moreover have "(of_char (digit_char d) :: nat) = 48 + d"
    using assms(2) by (simp add: digit_char_def)
  moreover have "(of_char (digit_char 0) :: nat) = 48"
    by (simp add: digit_char_def)
  ultimately show False using assms(1) by simp
qed

lemma digits_of_nonempty: "digits_of n \<noteq> []"
  by (subst digits_of.simps) simp

lemma hd_digits_of: "0 < n \<Longrightarrow> hd (digits_of n) \<noteq> CHR ''0''"
proof (induction n rule: digits_of.induct)
  case (1 n)
  show ?case
  proof (cases "n < 10")
    case True
    with "1.prems" have "digit_char n \<noteq> CHR ''0''"
      by (intro digit_char_nonzero)
    with True show ?thesis
      by (subst digits_of.simps) simp
  next
    case False
    then have "0 < n div 10" by simp
    with False "1.IH" have "hd (digits_of (n div 10)) \<noteq> CHR ''0''" by simp
    with False show ?thesis
      by (subst digits_of.simps) (simp add: digits_of_nonempty)
  qed
qed

lemma length_digits_of:
  "10 ^ k \<le> n \<Longrightarrow> n < 10 ^ Suc k \<Longrightarrow> length (digits_of n) = Suc k"
proof (induction k arbitrary: n)
  case 0
  then show ?case by (subst digits_of.simps) simp
next
  case (Suc k)
  have ge: "\<not> n < 10"
  proof -
    have "(10::nat) ^ 1 \<le> 10 ^ Suc k" by (rule power_increasing) simp_all
    then have "(10::nat) \<le> 10 ^ Suc k" by (simp only: power_one_right)
    from this Suc.prems(1) have "10 \<le> n" by (rule order_trans)
    then show ?thesis by simp
  qed
  from Suc.prems have "10 ^ k \<le> n div 10" "n div 10 < 10 ^ Suc k"
    by (auto simp: less_mult_imp_div_less)
  then have "length (digits_of (n div 10)) = Suc k" by (rule Suc.IH)
  with ge show ?case by (subst digits_of.simps) simp
qed

lemma digits_of_decimal: "c \<in> set (digits_of n) \<Longrightarrow> c \<in> set ''0123456789''"
proof (induction n rule: digits_of.induct)
  case (1 n)
  have d: "digit_char m \<in> set ''0123456789''" if "m < 10" for m
    using that by (rule digit_char_decimal)
  show ?case
  proof (cases "n < 10")
    case True
    with "1.prems" have "c = digit_char n" by (subst (asm) digits_of.simps) simp
    with True d show ?thesis by blast
  next
    case False
    with "1.prems" have "c \<in> set (digits_of (n div 10)) \<or> c = digit_char (n mod 10)"
      by (subst (asm) digits_of.simps) auto
    then show ?thesis
    proof
      assume "c \<in> set (digits_of (n div 10))"
      with False "1.IH" show ?thesis by blast
    next
      assume "c = digit_char (n mod 10)"
      moreover have "n mod 10 < 10" by simp
      ultimately show ?thesis using d by blast
    qed
  qed
qed

section \<open>Facts about the provisioner\<close>

lemma double_of_100000: "double_of 100000 = 100000"
  using double_of_int [of 100000] by simp

lemma double_of_top_product: "double_of ((1 - 1 / 2 ^ 53) * 900000) = 900000 - 1 / 2 ^ 33"
  by (rule double_of_eqI [where e = 19 and N = 7730941132799999 and q = "1 / 2 ^ 33"])
     (simp_all add: power_int_minus_divide)

lemma double_of_top_sum: "double_of (100000 + (900000 - 1 / 2 ^ 33)) = 1000000 - 1 / 2 ^ 33"
  by (rule double_of_eqI [where e = 19 and N = 8589934591999999 and q = "1 / 2 ^ 33"])
     (simp_all add: power_int_minus_divide)

lemma otp_number_lower:
  assumes "0 \<le> r"
  shows "100000 \<le> \<lfloor>fadd 100000 (fmul r 900000)\<rfloor>"
proof -
  from assms have "0 \<le> r * 900000" by simp
  then have "0 \<le> fmul r 900000" unfolding fmul_def by (rule double_of_nonneg)
  then have "100000 \<le> 100000 + fmul r 900000" by simp
  then have "double_of 100000 \<le> double_of (100000 + fmul r 900000)" by (rule double_of_mono)
  then have "100000 \<le> fadd 100000 (fmul r 900000)"
    by (simp only: double_of_100000 fadd_def)
  then show ?thesis by (simp add: le_floor_iff)
qed

lemma otp_number_upper:
  assumes "is_double r" and "r < 1"
  shows "\<lfloor>fadd 100000 (fmul r 900000)\<rfloor> \<le> 999999"
proof -
  from assms have "r \<le> 1 - 1 / 2 ^ 53" by (rule double_below_one)
  then have "r * 900000 \<le> (1 - 1 / 2 ^ 53) * 900000" by simp
  then have "double_of (r * 900000) \<le> double_of ((1 - 1 / 2 ^ 53) * 900000)"
    by (rule double_of_mono)
  then have "fmul r 900000 \<le> 900000 - 1 / 2 ^ 33"
    by (simp only: double_of_top_product fmul_def)
  then have "100000 + fmul r 900000 \<le> 100000 + (900000 - 1 / 2 ^ 33)" by simp
  then have "double_of (100000 + fmul r 900000) \<le> double_of (100000 + (900000 - 1 / 2 ^ 33))"
    by (rule double_of_mono)
  then have "fadd 100000 (fmul r 900000) \<le> 1000000 - 1 / 2 ^ 33"
    by (simp only: double_of_top_sum fadd_def)
  then have "fadd 100000 (fmul r 900000) < 1000000" by simp
  then have "\<lfloor>fadd 100000 (fmul r 900000)\<rfloor> < 1000000" by (simp add: floor_less_iff)
  then show ?thesis by simp
qed

lemma generate_otp_shape:
  assumes "0 \<le> r"
  shows "generate_otp r = digits_of (nat \<lfloor>fadd 100000 (fmul r 900000)\<rfloor>)"
    and "hd (generate_otp r) \<noteq> CHR ''0''"
    and "set (generate_otp r) \<subseteq> set ''0123456789''"
    and "\<lfloor>fadd 100000 (fmul r 900000)\<rfloor> \<le> 999999 \<Longrightarrow> length (generate_otp r) = 6"
proof -
  let ?v = "\<lfloor>fadd 100000 (fmul r 900000)\<rfloor>"
  let ?n = "nat ?v"
  from otp_number_lower [OF assms] have lo: "100000 \<le> ?v" .
  then have "\<not> ?v < 0" by simp
  then show eq: "generate_otp r = digits_of ?n"
    by (simp only: generate_otp_def toString_def if_False)
  from lo have "0 < ?n" by simp
  then have "hd (digits_of ?n) \<noteq> CHR ''0''" by (rule hd_digits_of)
  with eq show "hd (generate_otp r) \<noteq> CHR ''0''" by simp
  from eq show "set (generate_otp r) \<subseteq> set ''0123456789''"
    using digits_of_decimal by auto
  assume "?v \<le> 999999"
  with lo have "100000 \<le> ?n" "?n < 1000000" by linarith+
  then have "10 ^ 5 \<le> ?n" "?n < 10 ^ Suc 5" by simp_all
  then have "length (digits_of ?n) = Suc 5" by (rule length_digits_of)
  with eq show "length (generate_otp r) = 6" by simp
qed

text \<open>Every code from 100000 to 999999 is issued for some multiple of \<open>1 / 2 ^ 52\<close>.\<close>

lemma generate_otp_reaches:
  assumes "100000 \<le> n" and "n \<le> 999999"
  shows "\<exists>r. is_double r \<and> 0 \<le> r \<and> r < 1 \<and> generate_otp r = toString n"
proof -
  define t :: rat where "t = (of_int n - 100000 + 1 / 2) * 2 ^ 52 / 900000"
  define m :: int where "m = \<lfloor>t\<rfloor>"
  define r :: rat where "r = of_int m * 2 powi (- 52)"
  have t0: "0 \<le> t" using assms(1) by (simp add: t_def)
  have "of_int n - 100000 + 1 / 2 < (900000::rat)" using assms(2) by simp
  then have "(of_int n - 100000 + 1 / 2) * 2 ^ 52 < (900000::rat) * 2 ^ 52" by simp
  then have t1: "t < 2 ^ 52" by (simp add: t_def)
  have m_le: "of_int m \<le> t" and m_gt: "t - 1 < of_int m" unfolding m_def by linarith+
  from t0 have m0: "0 \<le> m" by (simp add: m_def)
  from m_le t1 have "(of_int m :: rat) < of_int (2 ^ 52)" by simp
  then have m1: "m < 2 ^ 52" by (simp only: of_int_less_iff)
  from m0 m1 have "\<bar>m\<bar> < 2 ^ 53" by simp
  then have exact: "double_of r = r" unfolding r_def by (rule double_of_dyadic) simp
  have r_eq: "r = of_int m / 2 ^ 52" by (simp add: r_def power_int_minus_divide)
  from m0 have r0: "0 \<le> r" by (simp add: r_eq)
  from m_le t1 have r1: "r < 1" by (simp add: r_eq)
  from r0 r1 have "\<bar>r\<bar> < 2 powi 1024"
    by (metis abs_of_nonneg less_le_trans one_le_power_int one_le_numeral zero_le_numeral)
  with exact have dbl: "is_double r" by (simp add: is_double_def)
  let ?y = "r * 900000"
  have y_eq: "?y = of_int m * 900000 / 2 ^ 52" by (simp add: r_eq)
  have t_eq: "t * 900000 / 2 ^ 52 = of_int n - 100000 + 1 / 2" by (simp add: t_def)
  from m_le have "of_int m * 900000 / 2 ^ 52 \<le> t * 900000 / 2 ^ 52"
    by (simp add: divide_right_mono mult_right_mono)
  then have y_hi: "?y \<le> of_int n - 100000 + 1 / 2" by (simp only: y_eq t_eq)
  from m_gt have "(t - 1) * 900000 / 2 ^ 52 < of_int m * 900000 / 2 ^ 52"
    by (simp add: divide_strict_right_mono)
  moreover have "(t - 1) * 900000 / 2 ^ 52 = t * 900000 / 2 ^ 52 - 900000 / 2 ^ 52"
    by (simp add: field_simps)
  ultimately have "of_int n - 100000 + 1 / 2 - 900000 / 2 ^ 52 < ?y"
    by (simp only: y_eq t_eq)
  then have y_lo: "of_int n - 100000 + 1 / 2 - 1 / 1000000 < ?y" by simp
  from r0 have y0: "0 \<le> ?y" by simp
  have n_hi: "(of_int n :: rat) \<le> 999999" using assms(2) by simp
  have n_lo: "(100000 :: rat) \<le> of_int n" using assms(1) by simp
  have p20: "(2::rat) powi 20 = 1048576" by simp
  have p34: "(2::rat) powi (20 - 54) = 1 / 17179869184" by (simp add: power_int_minus_divide)
  from y0 y_hi n_hi have "\<bar>?y\<bar> < 1048576" by linarith
  then have "\<bar>?y\<bar> < 2 powi 20" by (simp only: p20)
  then have "\<bar>double_of ?y - ?y\<bar> \<le> 2 powi (20 - 54)" by (rule double_of_close) simp
  then have w: "\<bar>fmul r 900000 - ?y\<bar> \<le> 1 / 17179869184"
    by (simp only: fmul_def p34)
  let ?z = "100000 + fmul r 900000"
  from w y0 y_hi n_hi have "\<bar>?z\<bar> < 1048576" by linarith
  then have "\<bar>?z\<bar> < 2 powi 20" by (simp only: p20)
  then have "\<bar>double_of ?z - ?z\<bar> \<le> 2 powi (20 - 54)" by (rule double_of_close) simp
  then have v: "\<bar>fadd 100000 (fmul r 900000) - ?z\<bar> \<le> 1 / 17179869184"
    by (simp only: fadd_def p34)
  from v w y_lo y_hi have "of_int n \<le> fadd 100000 (fmul r 900000)"
    and "fadd 100000 (fmul r 900000) < of_int n + 1"
    by linarith+
  then have "\<lfloor>fadd 100000 (fmul r 900000)\<rfloor> = n" by (simp add: floor_eq_iff)
  then have "generate_otp r = toString n" by (simp only: generate_otp_def)
  with dbl r0 r1 show ?thesis by blast
qed

lemma check_code_exhausted:
  assumes "find_otp e (otp_verifications st) = Some row" and "attempts row \<ge> 5"
  shows "check_code env r e otp st =
     (if fetchError env then (error_response 500 ''Failed to verify OTP'', st)
      else if expires_at row < now env then (error_response 400 ''OTP has expired'', st)
      else (error_response 400 ''Too many failed attempts. Please request a new OTP'', st))"
  using assms by (simp add: check_code_def)

lemma verify_otp_post:
  "verify_otp env (Post r) st =
     (if falsy (vr_email r) \<or> falsy (vr_otp r)
      then (error_response 400 ''Email and OTP are required'', st)
      else check_code env r (case vr_email r of None \<Rightarrow> [] | Some e \<Rightarrow> e)
             (case vr_otp r of None \<Rightarrow> [] | Some otp \<Rightarrow> otp) st)"
  by (simp add: verify_otp_def falsy_def split: option.splits)

lemma check_code_reject:
  assumes "\<not> fetchError env"
  shows "find_otp e (otp_verifications st) = None \<Longrightarrow>
           check_code env r e otp st = (error_response 404 ''No OTP found for this email'', st)"
    and "find_otp e (otp_verifications st) = Some row \<Longrightarrow> expires_at row < now env \<Longrightarrow>
           check_code env r e otp st = (error_response 400 ''OTP has expired'', st)"
    and "find_otp e (otp_verifications st) = Some row \<Longrightarrow> \<not> expires_at row < now env \<Longrightarrow>
           attempts row \<ge> 5 \<Longrightarrow>
           check_code env r e otp st =
             (error_response 400 ''Too many failed attempts. Please request a new OTP'', st)"
  using assms by (simp_all add: check_code_def)

lemma reset_no_account:
  assumes "\<not> list_ex (\<lambda>u. user_email u = e) (users st)"
  shows "reset env e row st = (success_response env, st)"
proof -
  have "find (\<lambda>u. user_email u = e) (users st) = None"
    using assms by (simp add: find_None_iff list_ex_iff)
  then show ?thesis
    by (simp add: reset_def listUsers_def)
qed

lemma issue_ok:
  assumes "issue env e purpose st = (resp, st')" and "status resp = 200"
  shows "otp_verifications st' =
           (if deleteError env then otp_verifications st
            else delete_unverified e (otp_verifications st)) @
             [\<lparr> otp_id = new_otp_id env, otp_email = e, otp_code = generate_otp (random env),
                created_at = send_now env, expires_at = send_now env + 10 * 60 * 1000,
                verified = False, attempts = 0 \<rparr>]"
  using assms
  by (auto simp: issue_def Let_def error_response_def split: if_splits option.splits)

lemma send_otp_ok:
  assumes "send_otp env (Post r) st = (resp, st')" and "status resp = 200"
    and "sr_email r = Some e"
  shows "\<exists>purpose. issue env e purpose st = (resp, st')"
  using assms
  by (auto simp: send_otp_def Let_def error_response_def signup_gate_def reset_gate_def
      split: if_splits option.splits)

lemma filter_delete_unverified:
  "filter (\<lambda>row. otp_email row = e \<and> \<not> verified row) (delete_unverified e tbl) = []"
  "filter verified (delete_unverified e tbl) = filter verified tbl"
  by (auto simp: delete_unverified_def intro: filter_cong)

section \<open>The claims about the recommender\<close>

text \<open>
  Claim C1, as the code has it. For every posting the recommender processes, the composite
  score is 0.5 times the skill component plus 0.25 times the assessment average plus 0.25
  times the interview average, computed in double precision on the handler's own doubles
  for the three components, each product and each sum rounded to the nearest double; with
  averages between 0 and 100 it is within \<open>1 / 2 ^ 44\<close> of the exact weighted sum of
  those doubles. The stored \<open>match_score\<close> is the computed composite rounded to the
  nearest integer, and the three components are stored rounded too. Every recommendation
  the handler builds is such a record of one of the postings. With averages 80 and 60 and
  a skill component of 100 the composite is 85 and the stored \<open>match_score\<close> is 85.
\<close>

theorem match_score_double_weighted_sum:
  "matchScore_of ss am ai j =
     fadd (fadd (fmul (skillMatch_double_of ss j) (1 / 2)) (fmul am (1 / 4))) (fmul ai (1 / 4))
   \<and> match_score (recommendation_of ss am ai j) = Math_round (matchScore_of ss am ai j)
   \<and> \<bar>of_int (match_score (recommendation_of ss am ai j)) - matchScore_of ss am ai j\<bar> \<le> 1 / 2
   \<and> skill_match (recommendation_of ss am ai j) = Math_round (skillMatch_double_of ss j)
   \<and> test_performance (recommendation_of ss am ai j) = Math_round am
   \<and> interview_performance (recommendation_of ss am ai j) = Math_round ai
   \<and> (\<forall>r \<in> set (recommend resume_skills mockResults interviews (Some jobs)).
         \<exists>j' \<in> set jobs.
           r = recommendation_of (cleanStudentSkills resume_skills) (average mockResults)
                 (average interviews) j')
   \<and> (0 \<le> am \<and> am \<le> 100 \<and> 0 \<le> ai \<and> ai \<le> 100 \<longrightarrow>
        \<bar>matchScore_of ss am ai j
           - (1 / 2 * skillMatch_double_of ss j + 1 / 4 * am + 1 / 4 * ai)\<bar> \<le> 1 / 2 ^ 44)
   \<and> (skillMatch_double_of ss j = 100 \<longrightarrow>
        matchScore_of ss 80 60 j = 85 \<and> match_score (recommendation_of ss 80 60 j) = 85)"
proof -
  have formula: "matchScore_of ss am ai j =
     fadd (fadd (fmul (skillMatch_double_of ss j) (1 / 2)) (fmul am (1 / 4))) (fmul ai (1 / 4))"
    by (simp add: matchScore_of_def)
  have stored: "match_score (recommendation_of ss am ai j) = Math_round (matchScore_of ss am ai j)"
    by (simp add: recommendation_of_def)
  have near: "\<bar>of_int (match_score (recommendation_of ss am ai j)) - matchScore_of ss am ai j\<bar>
      \<le> 1 / 2"
    using Math_round_nearest [of "matchScore_of ss am ai j"] by (simp only: stored)
  have parts: "skill_match (recommendation_of ss am ai j) = Math_round (skillMatch_double_of ss j)"
    "test_performance (recommendation_of ss am ai j) = Math_round am"
    "interview_performance (recommendation_of ss am ai j) = Math_round ai"
    by (simp_all add: recommendation_of_def)
  have built: "\<forall>r \<in> set (recommend resume_skills mockResults interviews (Some jobs)).
         \<exists>j' \<in> set jobs.
           r = recommendation_of (cleanStudentSkills resume_skills) (average mockResults)
                 (average interviews) j'"
    by (auto simp: recommend_Some)
  have close: "\<bar>matchScore_of ss am ai j
           - (1 / 2 * skillMatch_double_of ss j + 1 / 4 * am + 1 / 4 * ai)\<bar> \<le> 1 / 2 ^ 44"
    if "0 \<le> am \<and> am \<le> 100 \<and> 0 \<le> ai \<and> ai \<le> 100"
  proof -
    from calculateSkillMatch_double_range [of ss "jobSkills_of j"]
    have "0 \<le> skillMatch_double_of ss j" "skillMatch_double_of ss j \<le> 100"
      by (simp_all add: skillMatch_double_of_def)
    with that show ?thesis
      unfolding formula by (intro weighted_sum_close) simp_all
  qed
  have example: "matchScore_of ss 80 60 j = 85 \<and> match_score (recommendation_of ss 80 60 j) = 85"
    if "skillMatch_double_of ss j = 100"
  proof -
    have "matchScore_of ss 80 60 j = 85"
      using that by (simp add: matchScore_of_def fadd_def fmul_def double_of_numeral)
    moreover have "Math_round 85 = 85"
      by (simp add: Math_round_def floor_eq_iff)
    ultimately show ?thesis
      by (simp add: recommendation_of_def)
  qed
  from formula stored near parts built close example show ?thesis
    by (intro conjI impI) simp_all
qed

theorem match_score_double_weighted_sum_witness:
  "skillMatch_double_of [''python''] \<lparr> job_id = ''j1'', job_role = ''Developer'',
        company_name = ''Acme'', skills_required = Some [''Python''] \<rparr> = 100
   \<and> match_score (recommendation_of [''python''] 80 60
        \<lparr> job_id = ''j1'', job_role = ''Developer'', company_name = ''Acme'',
          skills_required = Some [''Python''] \<rparr>) = 85"
proof -
  let ?j = "\<lparr> job_id = ''j1'', job_role = ''Developer'', company_name = ''Acme'',
        skills_required = Some [''Python''] \<rparr>"
  have js: "jobSkills_of ?j = [''python'']" by code_simp
  have cm: "count_matches [''python''] [''python''] 0 = 1" by code_simp
  have h: "skillMatch_double_of [''python''] ?j = 100"
    by (simp add: skillMatch_double_of_def calculateSkillMatch_double_def js cm fdiv_def fmul_def
        double_of_one double_of_numeral)
  with match_score_double_weighted_sum [of "[''python'']" 80 60 ?j]
  have "match_score (recommendation_of [''python''] 80 60 ?j) = 85"
    by blast
  with h show ?thesis by simp
qed

text \<open>
  The claim as written fails. One of three required skills matched and mock scores 7, 7
  and 8: the exact weighted sum of 100/3 and 22/3 is 37/2, which rounds to 19; the handler
  computes 18.499999999999996 and stores 18.
\<close>

theorem exact_weighted_sum_differs:
  "map match_score
     (recommend (Some [JStr ''python'']) (Some [Some 7, Some 7, Some 8]) None
        (Some [\<lparr> job_id = ''j5'', job_role = ''Engineer'', company_name = ''Globex'',
        skills_required = Some [''Python'', ''SQL'', ''Java''] \<rparr>])) = [18]
   \<and> Math_round (1 / 2 * calculateSkillMatch [''python''] [''python'', ''sql'', ''java'']
                  + 1 / 4 * ((7 + 7 + 8) / 3) + 1 / 4 * 0) = 19"
proof -
  let ?j = "\<lparr> job_id = ''j5'', job_role = ''Engineer'', company_name = ''Globex'',
        skills_required = Some [''Python'', ''SQL'', ''Java''] \<rparr>"
  have ss: "cleanStudentSkills (Some [JStr ''python'']) = [''python'']" by code_simp
  have js: "jobSkills_of ?j = [''python'', ''sql'', ''java'']" by code_simp
  have cm: "count_matches [''python''] [''python'', ''sql'', ''java''] 0 = 1" by code_simp
  have a1: "fdiv (1) (3) = 6004799503160661 / 18014398509481984"
    unfolding fdiv_def
    by (rule double_of_eqI [where e = "- 2" and N = 6004799503160661 and q = "1 / 18014398509481984"])
       (simp_all add: power_int_minus_divide)
  have a2: "fmul (6004799503160661 / 18014398509481984) (100) = 2345624805922133 / 70368744177664"
    unfolding fmul_def
    by (rule double_of_eqI [where e = "5" and N = 4691249611844266 and q = "1 / 140737488355328"])
       (simp_all add: power_int_minus_divide)
  have a3: "fadd (0) (7) = 7"
    unfolding fadd_def
    by (rule double_of_eqI [where e = "2" and N = 7881299347898368 and q = "1 / 1125899906842624"])
       (simp_all add: power_int_minus_divide)
  have a4: "fadd (7) (7) = 14"
    unfolding fadd_def
    by (rule double_of_eqI [where e = "3" and N = 7881299347898368 and q = "1 / 562949953421312"])
       (simp_all add: power_int_minus_divide)
  have a5: "fadd (14) (8) = 22"
    unfolding fadd_def
    by (rule double_of_eqI [where e = "4" and N = 6192449487634432 and q = "1 / 281474976710656"])
       (simp_all add: power_int_minus_divide)
  have a6: "fdiv (22) (3) = 8256599316845909 / 1125899906842624"
    unfolding fdiv_def
    by (rule double_of_eqI [where e = "2" and N = 8256599316845909 and q = "1 / 1125899906842624"])
       (simp_all add: power_int_minus_divide)
  have a7: "fmul (2345624805922133 / 70368744177664) (1 / 2) = 2345624805922133 / 140737488355328"
    unfolding fmul_def
    by (rule double_of_eqI [where e = "4" and N = 4691249611844266 and q = "1 / 281474976710656"])
       (simp_all add: power_int_minus_divide)
  have a8: "fmul (8256599316845909 / 1125899906842624) (1 / 4) = 8256599316845909 / 4503599627370496"
    unfolding fmul_def
    by (rule double_of_eqI [where e = "0" and N = 8256599316845909 and q = "1 / 4503599627370496"])
       (simp_all add: power_int_minus_divide)
  have a9: "fmul (0) (1 / 4) = 0"
    by (simp add: fmul_def)
  have a10: "fadd (2345624805922133 / 140737488355328) (8256599316845909 / 4503599627370496) = 5207287069147135 / 281474976710656"
    unfolding fadd_def
    by (rule double_of_eqI [where e = "4" and N = 5207287069147135 and q = "1 / 281474976710656"])
       (simp_all add: power_int_minus_divide)
  have a11: "fadd (5207287069147135 / 281474976710656) (0) = 5207287069147135 / 281474976710656"
    unfolding fadd_def
    by (rule double_of_eqI [where e = "4" and N = 5207287069147135 and q = "1 / 281474976710656"])
       (simp_all add: power_int_minus_divide)
  have sk: "skillMatch_double_of [''python''] ?j = 2345624805922133 / 70368744177664"
    by (simp add: skillMatch_double_of_def calculateSkillMatch_double_def js cm a1 a2)
  have am: "average (Some [Some 7, Some 7, Some 8]) = 8256599316845909 / 1125899906842624"
    by (simp add: average_def score_number_def double_of_numeral a3 a4 a5 a6)
  have ai: "average None = 0" by (simp add: average_def)
  have ms: "matchScore_of [''python''] (8256599316845909 / 1125899906842624) 0 ?j = 5207287069147135 / 281474976710656"
    by (simp add: matchScore_of_def sk a7 a8 a9 a10 a11)
  have mr: "Math_round (5207287069147135 / 281474976710656) = 18"
    by (rule Math_round_eqI) simp_all
  have stored: "map match_score
     (recommend (Some [JStr ''python'']) (Some [Some 7, Some 7, Some 8]) None (Some [?j])) = [18]"
    by (simp add: recommend_Some ss am ai ms recommendation_of_def mr)
  have "calculateSkillMatch [''python''] [''python'', ''sql'', ''java''] = 100 / 3"
    by (simp add: calculateSkillMatch_def cm)
  then have "1 / 2 * calculateSkillMatch [''python''] [''python'', ''sql'', ''java'']
      + 1 / 4 * ((7 + 7 + 8) / 3) + 1 / 4 * 0 = 37 / 2"
    by simp
  moreover have "Math_round (37 / 2) = 19"
    by (rule Math_round_eqI) simp_all
  ultimately have "Math_round (1 / 2 * calculateSkillMatch [''python''] [''python'', ''sql'', ''java'']
      + 1 / 4 * ((7 + 7 + 8) / 3) + 1 / 4 * 0) = 19"
    by (simp only:)
  with stored show ?thesis by (rule conjI)
qed

text \<open>
  Claim C2. A posting is in the persisted recommendations exactly when its composite score,
  as the handler computes it, is at least 15: the persisted list is the postings whose
  score reaches the floor, each turned into its record, sorted by stored score; every
  stored \<open>match_score\<close> is at least 15; and the insert writes one row per element of that
  list, after the student's old rows (or next to them if the delete failed).
\<close>

theorem retained_iff_score_at_least_15:
  assumes "ss = cleanStudentSkills resume_skills"
    and "am = average mockResults" and "ai = average interviews"
    and "recs = recommend resume_skills mockResults interviews (Some jobs)"
  shows "recs = sort_key (\<lambda>r. - match_score r)
                  (map (recommendation_of ss am ai)
                     (filter (\<lambda>j. matchScore_of ss am ai j \<ge> 15) jobs))
       \<and> mset recs = mset (map (recommendation_of ss am ai)
                                (filter (\<lambda>j. matchScore_of ss am ai j \<ge> 15) jobs))
       \<and> (\<forall>j \<in> set jobs.
             recommendation_of ss am ai j \<in> set recs \<longleftrightarrow> matchScore_of ss am ai j \<ge> 15)
       \<and> (\<forall>r \<in> set recs. match_score r \<ge> 15)
       \<and> persist False False uid recs tbl =
             Inr (filter (\<lambda>row. student_id row \<noteq> uid) tbl @ map (row_of uid) recs)
       \<and> persist True False uid recs tbl = Inr (tbl @ map (row_of uid) recs)"
proof -
  let ?kept = "map (recommendation_of ss am ai) (filter (\<lambda>j. matchScore_of ss am ai j \<ge> 15) jobs)"
  have eq: "recs = sort_key (\<lambda>r. - match_score r) ?kept"
    using assms by (simp only: recommend_Some)
  then have ms: "mset recs = mset ?kept" by simp
  from eq have set_recs: "set recs = set ?kept" by simp
  have member: "recommendation_of ss am ai j \<in> set recs \<longleftrightarrow> matchScore_of ss am ai j \<ge> 15"
    if "j \<in> set jobs" for j
  proof
    assume "recommendation_of ss am ai j \<in> set recs"
    then obtain j' where "j' \<in> set jobs" and "matchScore_of ss am ai j' \<ge> 15"
      and "recommendation_of ss am ai j = recommendation_of ss am ai j'"
      by (auto simp: set_recs)
    then show "matchScore_of ss am ai j \<ge> 15"
      using matchScore_of_recommendation [of ss am ai j j'] by simp
  next
    assume "matchScore_of ss am ai j \<ge> 15"
    with that show "recommendation_of ss am ai j \<in> set recs"
      by (auto simp: set_recs)
  qed
  have floor15: "match_score r \<ge> 15" if "r \<in> set recs" for r
  proof -
    from that obtain j where "matchScore_of ss am ai j \<ge> 15" and "r = recommendation_of ss am ai j"
      by (auto simp: set_recs)
    then show ?thesis
      by (simp add: recommendation_of_def Math_round_ge_15)
  qed
  have stored: "persist False False uid recs tbl =
      Inr (filter (\<lambda>row. student_id row \<noteq> uid) tbl @ map (row_of uid) recs)"
    "persist True False uid recs tbl = Inr (tbl @ map (row_of uid) recs)"
    by (simp_all add: persist_def Let_def)
  from eq ms member floor15 stored show ?thesis
    by (intro conjI ballI) simp_all
qed

theorem retained_iff_score_at_least_15_witness:
  "map rec_job_id
     (recommend (Some [JStr ''python'']) (Some [Some 16, Some 16, Some 17])
        (Some [Some 3, Some 4, Some 4])
        (Some [\<lparr> job_id = ''j1'', job_role = ''Developer'', company_name = ''Acme'',
               skills_required = Some [''Python''] \<rparr>,
               \<lparr> job_id = ''j6'', job_role = ''Analyst'', company_name = ''Initech'',
               skills_required = Some [''SQL'', ''Excel'', ''Python'', ''Tableau'', ''R''] \<rparr>]))
     = [''j1'']
   \<and> matchScore_of [''python''] (average (Some [Some 16, Some 16, Some 17]))
        (average (Some [Some 3, Some 4, Some 4]))
        \<lparr> job_id = ''j6'', job_role = ''Analyst'', company_name = ''Initech'',
               skills_required = Some [''SQL'', ''Excel'', ''Python'', ''Tableau'', ''R''] \<rparr>
     = 8444249301319679 / 562949953421312
   \<and> 8444249301319679 / 562949953421312 < (15::rat)"
proof -
  let ?j1 = "\<lparr> job_id = ''j1'', job_role = ''Developer'', company_name = ''Acme'',
               skills_required = Some [''Python''] \<rparr>"
  let ?j6 = "\<lparr> job_id = ''j6'', job_role = ''Analyst'', company_name = ''Initech'',
               skills_required = Some [''SQL'', ''Excel'', ''Python'', ''Tableau'', ''R''] \<rparr>"
  let ?raw = "Some [JStr ''python'']"
  let ?mock = "Some [Some 16, Some 16, Some 17]"
  let ?inter = "Some [Some 3, Some 4, Some 4]"
  have ss: "cleanStudentSkills ?raw = [''python'']" by code_simp
  have js1: "jobSkills_of ?j1 = [''python'']" by code_simp
  have js6: "jobSkills_of ?j6 = [''sql'', ''excel'', ''python'', ''tableau'', ''r'']" by code_simp
  have cm1: "count_matches [''python''] [''python''] 0 = 1" by code_simp
  have cm6: "count_matches [''python''] [''sql'', ''excel'', ''python'', ''tableau'', ''r''] 0 = 1"
    by code_simp
  have b1: "fadd (0) (16) = 16"
    unfolding fadd_def
    by (rule double_of_eqI [where e = "4" and N = 4503599627370496 and q = "1 / 281474976710656"])
       (simp_all add: power_int_minus_divide)
  have b2: "fadd (16) (16) = 32"
    unfolding fadd_def
    by (rule double_of_eqI [where e = "5" and N = 4503599627370496 and q = "1 / 140737488355328"])
       (simp_all add: power_int_minus_divide)
  have b3: "fadd (32) (17) = 49"
    unfolding fadd_def
    by (rule double_of_eqI [where e = "5" and N = 6896136929411072 and q = "1 / 140737488355328"])
       (simp_all add: power_int_minus_divide)
  have b4: "fdiv (49) (3) = 4597424619607381 / 281474976710656"
    unfolding fdiv_def
    by (rule double_of_eqI [where e = "4" and N = 4597424619607381 and q = "1 / 281474976710656"])
       (simp_all add: power_int_minus_divide)
  have b5: "fadd (0) (3) = 3"
    unfolding fadd_def
    by (rule double_of_eqI [where e = "1" and N = 6755399441055744 and q = "1 / 2251799813685248"])
       (simp_all add: power_int_minus_divide)
  have b6: "fadd (3) (4) = 7"
    unfolding fadd_def
    by (rule double_of_eqI [where e = "2" and N = 7881299347898368 and q = "1 / 1125899906842624"])
       (simp_all add: power_int_minus_divide)
  have b7: "fadd (7) (4) = 11"
    unfolding fadd_def
    by (rule double_of_eqI [where e = "3" and N = 6192449487634432 and q = "1 / 562949953421312"])
       (simp_all add: power_int_minus_divide)
  have b8: "fdiv (11) (3) = 8256599316845909 / 2251799813685248"
    unfolding fdiv_def
    by (rule double_of_eqI [where e = "1" and N = 8256599316845909 and q = "1 / 2251799813685248"])
       (simp_all add: power_int_minus_divide)
  have b9: "fdiv (1) (1) = 1"
    unfolding fdiv_def
    by (rule double_of_eqI [where e = "0" and N = 4503599627370496 and q = "1 / 4503599627370496"])
       (simp_all add: power_int_minus_divide)
  have b10: "fmul (1) (100) = 100"
    unfolding fmul_def
    by (rule double_of_eqI [where e = "6" and N = 7036874417766400 and q = "1 / 70368744177664"])
       (simp_all add: power_int_minus_divide)
  have b11: "fdiv (1) (5) = 3602879701896397 / 18014398509481984"
    unfolding fdiv_def
    by (rule double_of_eqI [where e = "- 3" and N = 7205759403792794 and q = "1 / 36028797018963968"])
       (simp_all add: power_int_minus_divide)
  have b12: "fmul (3602879701896397 / 18014398509481984) (100) = 20"
    unfolding fmul_def
    by (rule double_of_eqI [where e = "4" and N = 5629499534213120 and q = "1 / 281474976710656"])
       (simp_all add: power_int_minus_divide)
  have b13: "fmul (4597424619607381 / 281474976710656) (1 / 4) = 4597424619607381 / 1125899906842624"
    unfolding fmul_def
    by (rule double_of_eqI [where e = "2" and N = 4597424619607381 and q = "1 / 1125899906842624"])
       (simp_all add: power_int_minus_divide)
  have b14: "fmul (8256599316845909 / 2251799813685248) (1 / 4) = 8256599316845909 / 9007199254740992"
    unfolding fmul_def
    by (rule double_of_eqI [where e = "- 1" and N = 8256599316845909 and q = "1 / 9007199254740992"])
       (simp_all add: power_int_minus_divide)
  have b15: "fmul (100) (1 / 2) = 50"
    unfolding fmul_def
    by (rule double_of_eqI [where e = "5" and N = 7036874417766400 and q = "1 / 140737488355328"])
       (simp_all add: power_int_minus_divide)
  have b16: "fadd (50) (4597424619607381 / 1125899906842624) = 7611552495217323 / 140737488355328"
    unfolding fadd_def
    by (rule double_of_eqI [where e = "5" and N = 7611552495217323 and q = "1 / 140737488355328"])
       (simp_all add: power_int_minus_divide)
  have b17: "fadd (7611552495217323 / 140737488355328) (8256599316845909 / 9007199254740992) = 55"
    unfolding fadd_def
    by (rule double_of_eqI [where e = "5" and N = 7740561859543040 and q = "1 / 140737488355328"])
       (simp_all add: power_int_minus_divide)
  have b18: "fmul (20) (1 / 2) = 10"
    unfolding fmul_def
    by (rule double_of_eqI [where e = "3" and N = 5629499534213120 and q = "1 / 562949953421312"])
       (simp_all add: power_int_minus_divide)
  have b19: "fadd (10) (4597424619607381 / 1125899906842624) = 3964105922008405 / 281474976710656"
    unfolding fadd_def
    by (rule double_of_tieI [where e = "3" and n = 7928211844016810 and q = "1 / 562949953421312"])
       (simp_all add: power_int_minus_divide)
  have b20: "fadd (3964105922008405 / 281474976710656) (8256599316845909 / 9007199254740992) = 8444249301319679 / 562949953421312"
    unfolding fadd_def
    by (rule double_of_eqI [where e = "3" and N = 8444249301319679 and q = "1 / 562949953421312"])
       (simp_all add: power_int_minus_divide)
  have am: "average ?mock = 4597424619607381 / 281474976710656"
    by (simp add: average_def score_number_def double_of_numeral b1 b2 b3 b4)
  have ai: "average ?inter = 8256599316845909 / 2251799813685248"
    by (simp add: average_def score_number_def double_of_numeral b5 b6 b7 b8)
  have sk1: "skillMatch_double_of [''python''] ?j1 = 100"
    by (simp add: skillMatch_double_of_def calculateSkillMatch_double_def js1 cm1 b9 b10)
  have sk6: "skillMatch_double_of [''python''] ?j6 = 20"
    by (simp add: skillMatch_double_of_def calculateSkillMatch_double_def js6 cm6 b11 b12)
  have m1: "matchScore_of [''python''] (4597424619607381 / 281474976710656) (8256599316845909 / 2251799813685248) ?j1 = 55"
    by (simp add: matchScore_of_def sk1 b13 b14 b15 b16 b17 b18 b19 b20)
  have m6: "matchScore_of [''python''] (4597424619607381 / 281474976710656) (8256599316845909 / 2251799813685248) ?j6 = 8444249301319679 / 562949953421312"
    by (simp add: matchScore_of_def sk6 b13 b14 b15 b16 b17 b18 b19 b20)
  from retained_iff_score_at_least_15 [OF refl refl refl refl, of ?raw ?mock ?inter "[?j1, ?j6]"]
  have "recommend ?raw ?mock ?inter (Some [?j1, ?j6])
      = sort_key (\<lambda>r. - match_score r)
          (map (recommendation_of (cleanStudentSkills ?raw) (average ?mock) (average ?inter))
             (filter (\<lambda>j. matchScore_of (cleanStudentSkills ?raw) (average ?mock)
                         (average ?inter) j \<ge> 15) [?j1, ?j6]))"
    by blast
  then have "map rec_job_id (recommend ?raw ?mock ?inter (Some [?j1, ?j6])) = [''j1'']"
    by (simp add: ss am ai m1 m6 recommendation_of_def)
  moreover have "matchScore_of [''python''] (average ?mock) (average ?inter) ?j6 = 8444249301319679 / 562949953421312"
    by (simp only: am ai m6)
  moreover have "8444249301319679 / 562949953421312 < (15::rat)" by simp
  ultimately show ?thesis by (intro conjI)
qed





text \<open>
  Claim C8, as the code has it. A raw skill is discarded by both filters when it is not a
  string, is empty, is shorter than 2 characters, or contains \<open>[\<close>, \<open>{\<close> or \<open>=\<close>; the
  resume parser, and only it, also discards a string longer than 50 characters. Every
  other string passes (so \<open>]\<close> and \<open>}\<close> alone do not discard it); what passes is
  trimmed, and lower-cased for matching, and the parser drops what trimming leaves empty.
\<close>

theorem malformed_skills_discarded:
  "(keep_student_skill v \<longleftrightarrow>
      is_string v \<and> 2 \<le> length (str_of v) \<and> CHR ''['' \<notin> set (str_of v)
      \<and> CHR ''{'' \<notin> set (str_of v) \<and> CHR ''='' \<notin> set (str_of v))
   \<and> (keep_parsed_skill v \<longleftrightarrow>
      is_string v \<and> 2 \<le> length (str_of v) \<and> length (str_of v) \<le> 50
      \<and> CHR ''['' \<notin> set (str_of v) \<and> CHR ''{'' \<notin> set (str_of v)
      \<and> CHR ''='' \<notin> set (str_of v))
   \<and> cleanStudentSkills (Some raw) =
        map (\<lambda>v. trim (toLowerCase (str_of v))) (filter keep_student_skill raw)
   \<and> clean_parsed_skills raw =
        filter (\<lambda>s. s \<noteq> []) (map (\<lambda>v. trim (str_of v)) (filter keep_parsed_skill raw))"
proof -
  have student: "keep_student_skill v \<longleftrightarrow>
      is_string v \<and> 2 \<le> length (str_of v) \<and> CHR ''['' \<notin> set (str_of v)
      \<and> CHR ''{'' \<notin> set (str_of v) \<and> CHR ''='' \<notin> set (str_of v)"
    by (cases v) (auto simp: keep_student_skill_iff)
  have parsed: "keep_parsed_skill v \<longleftrightarrow>
      is_string v \<and> 2 \<le> length (str_of v) \<and> length (str_of v) \<le> 50
      \<and> CHR ''['' \<notin> set (str_of v) \<and> CHR ''{'' \<notin> set (str_of v)
      \<and> CHR ''='' \<notin> set (str_of v)"
    by (cases v) (auto simp: keep_parsed_skill_iff)
  have out1: "cleanStudentSkills (Some raw) =
        map (\<lambda>v. trim (toLowerCase (str_of v))) (filter keep_student_skill raw)"
    by (simp add: cleanStudentSkills_def o_def)
  have out2: "clean_parsed_skills raw =
        filter (\<lambda>s. s \<noteq> []) (map (\<lambda>v. trim (str_of v)) (filter keep_parsed_skill raw))"
    by (simp add: clean_parsed_skills_def o_def)
  from student parsed out1 out2 show ?thesis
    by (intro conjI)
qed

theorem malformed_skills_discarded_witness:
  "\<not> keep_student_skill (JStr ''{skills='') \<and> \<not> keep_parsed_skill (JStr ''{skills='')
   \<and> \<not> keep_student_skill (JNum 7) \<and> \<not> keep_parsed_skill (JStr ''C'')
   \<and> keep_student_skill (JStr ''SQL'') \<and> keep_parsed_skill (JStr ''SQL'')
   \<and> \<not> keep_parsed_skill (JStr (replicate 51 (CHR ''a'')))
   \<and> keep_student_skill (JStr (replicate 51 (CHR ''a'')))"
  using malformed_skills_discarded [of "JStr ''{skills=''" "[]"]
    malformed_skills_discarded [of "JNum 7" "[]"]
    malformed_skills_discarded [of "JStr ''C''" "[]"]
    malformed_skills_discarded [of "JStr ''SQL''" "[]"]
    malformed_skills_discarded [of "JStr (replicate 51 (CHR ''a''))" "[]"]
  by simp

text \<open>
  The claim as written fails: a string holding \<open>]\<close> or \<open>}\<close> and none of \<open>[\<close>, \<open>{\<close>,
  \<open>=\<close> survives both cleaners, and a string of 51 characters reaches the matching input.
\<close>

theorem closing_brackets_survive_cleaning:
  "clean_parsed_skills [JStr ''C]'', JStr ''Go}''] = [''C]'', ''Go}'']
   \<and> cleanStudentSkills (Some [JStr ''C]'', JStr ''Go}'']) = [''c]'', ''go}'']
   \<and> cleanStudentSkills (Some [JStr (replicate 51 (CHR ''a''))]) = [replicate 51 (CHR ''a'')]"
  by code_simp

section \<open>The claims about the provisioner\<close>

text \<open>
  Claim C5. When the code row found for the email has 5 or more attempts, verification is
  rejected whatever code is submitted: the response is an error, never status 200, the
  store is left as it was (the row is neither deleted nor changed), and with a readable
  request and an unexpired row the response is the attempts message, reached before the
  submitted code is looked at.
\<close>

theorem exhausted_attempts_always_rejected:
  assumes "vr_email r = Some e"
    and "find_otp e (otp_verifications st) = Some row"
    and "attempts row \<ge> 5"
  shows "snd (verify_otp env (Post r) st) = st
       \<and> fst (verify_otp env (Post r) st) \<in>
           {error_response 400 ''Email and OTP are required'',
            error_response 500 ''Failed to verify OTP'',
            error_response 400 ''OTP has expired'',
            error_response 400 ''Too many failed attempts. Please request a new OTP''}
       \<and> status (fst (verify_otp env (Post r) st)) \<noteq> 200
       \<and> (\<not> falsy (vr_email r) \<and> \<not> falsy (vr_otp r) \<and> \<not> fetchError env
            \<and> \<not> expires_at row < now env \<longrightarrow>
          fst (verify_otp env (Post r) st) =
            error_response 400 ''Too many failed attempts. Please request a new OTP'')"
  using assms
  by (simp add: verify_otp_post check_code_exhausted error_response_def)

theorem exhausted_attempts_always_rejected_witness:
  "verify_otp (example_verify_env 2000) (Post (example_verify_request ''123456'' ''signup''))
      (example_store [example_row\<lparr> attempts := 5 \<rparr>])
   = (error_response 400 ''Too many failed attempts. Please request a new OTP'',
      example_store [example_row\<lparr> attempts := 5 \<rparr>])"
proof -
  let ?r = "example_verify_request ''123456'' ''signup''"
  let ?row = "example_row\<lparr> attempts := 5 \<rparr>"
  let ?st = "example_store [?row]"
  let ?env = "example_verify_env 2000"
  have a: "vr_email ?r = Some ''asha@college.edu''"
    by (simp add: example_verify_request_def)
  have b: "find_otp ''asha@college.edu'' (otp_verifications ?st) = Some ?row"
    by (simp add: find_otp_def example_store_def example_row_def)
  have c: "attempts ?row \<ge> 5" by simp
  have d: "\<not> falsy (vr_email ?r) \<and> \<not> falsy (vr_otp ?r) \<and> \<not> fetchError ?env
      \<and> \<not> expires_at ?row < now ?env"
    by (simp add: falsy_def example_verify_request_def example_verify_env_def example_row_def)
  from exhausted_attempts_always_rejected [OF a b c, of ?env] d
  have "snd (verify_otp ?env (Post ?r) ?st) = ?st"
    and "fst (verify_otp ?env (Post ?r) ?st) =
      error_response 400 ''Too many failed attempts. Please request a new OTP''"
    by blast+
  then show ?thesis by (simp add: prod_eq_iff)
qed

text \<open>
  Claim C6, as the code has it. After an issuance that answers 200 for an email, the code
  rows are those the delete left, followed by the new row. When the delete of the email's
  unverified rows took effect, the unverified rows of that email are exactly the new row,
  so there is at most one. The handler does not read the result of the delete: when the
  delete failed, the rows are the earlier ones followed by the new row. In both cases the
  rows marked verified are the ones that were there before.
\<close>

theorem issuance_unverified_rows:
  assumes "send_otp env (Post r) st = (resp, st')" and "status resp = 200"
    and "sr_email r = Some e"
  shows "(\<not> deleteError env \<longrightarrow>
            filter (\<lambda>row. otp_email row = e \<and> \<not> verified row) (otp_verifications st') =
              [\<lparr> otp_id = new_otp_id env, otp_email = e, otp_code = generate_otp (random env),
                 created_at = send_now env, expires_at = send_now env + 10 * 60 * 1000,
                 verified = False, attempts = 0 \<rparr>]
            \<and> length (filter (\<lambda>row. otp_email row = e \<and> \<not> verified row)
                        (otp_verifications st')) \<le> 1)
       \<and> (deleteError env \<longrightarrow>
            otp_verifications st' =
              otp_verifications st @
              [\<lparr> otp_id = new_otp_id env, otp_email = e, otp_code = generate_otp (random env),
                 created_at = send_now env, expires_at = send_now env + 10 * 60 * 1000,
                 verified = False, attempts = 0 \<rparr>])
       \<and> filter verified (otp_verifications st') = filter verified (otp_verifications st)"
proof -
  from send_otp_ok [OF assms] obtain purpose where "issue env e purpose st = (resp, st')" ..
  from issue_ok [OF this assms(2)] show ?thesis
    by (simp add: filter_delete_unverified)
qed

theorem issuance_unverified_rows_witness:
  "status (fst (send_otp example_send_env (Post example_send_request)
      (example_store [example_row, example_row\<lparr> otp_id := 2, verified := True \<rparr>,
         example_row\<lparr> otp_id := 3, otp_code := ''654321'' \<rparr>]))) = 200
   \<and> map otp_id (filter (\<lambda>row. otp_email row = ''asha@college.edu'' \<and> \<not> verified row)
        (otp_verifications (snd (send_otp example_send_env (Post example_send_request)
           (example_store [example_row, example_row\<lparr> otp_id := 2, verified := True \<rparr>,
              example_row\<lparr> otp_id := 3, otp_code := ''654321'' \<rparr>]))))) = [9]
   \<and> map otp_id (filter verified
        (otp_verifications (snd (send_otp example_send_env (Post example_send_request)
           (example_store [example_row, example_row\<lparr> otp_id := 2, verified := True \<rparr>,
              example_row\<lparr> otp_id := 3, otp_code := ''654321'' \<rparr>]))))) = [2]
   \<and> map otp_id
        (otp_verifications (snd (send_otp (example_send_env\<lparr> deleteError := True \<rparr>)
           (Post example_send_request)
           (example_store [example_row, example_row\<lparr> otp_id := 2, verified := True \<rparr>,
              example_row\<lparr> otp_id := 3, otp_code := ''654321'' \<rparr>])))) = [1, 2, 3, 9]"
proof -
  let ?st = "example_store [example_row, example_row\<lparr> otp_id := 2, verified := True \<rparr>,
         example_row\<lparr> otp_id := 3, otp_code := ''654321'' \<rparr>]"
  let ?run = "send_otp example_send_env (Post example_send_request) ?st"
  let ?env' = "example_send_env\<lparr> deleteError := True \<rparr>"
  let ?run' = "send_otp ?env' (Post example_send_request) ?st"
  have ok: "status (fst ?run) = 200"
    by (simp add: send_otp_def signup_gate_def not_preregistered_def issue_def Let_def
        example_send_env_def example_send_request_def example_store_def)
  have ok': "status (fst ?run') = 200"
    by (simp add: send_otp_def signup_gate_def not_preregistered_def issue_def Let_def
        example_send_env_def example_send_request_def example_store_def)
  have e: "sr_email example_send_request = Some ''asha@college.edu''"
    by (simp add: example_send_request_def)
  have flags: "\<not> deleteError example_send_env" "deleteError ?env'"
    by (simp_all add: example_send_env_def)
  have before: "map otp_id (filter verified (otp_verifications ?st)) = [2]"
    "map otp_id (otp_verifications ?st) = [1, 2, 3]"
    by (simp_all add: example_store_def example_row_def)
  from issuance_unverified_rows [OF surjective_pairing ok e] flags(1) before(1)
  have one: "map otp_id (filter (\<lambda>row. otp_email row = ''asha@college.edu'' \<and> \<not> verified row)
        (otp_verifications (snd ?run))) = [9]"
    and two: "map otp_id (filter verified (otp_verifications (snd ?run))) = [2]"
    by (simp_all add: example_send_env_def)
  from issuance_unverified_rows [OF surjective_pairing ok' e] flags(2) before(2)
  have three: "map otp_id (otp_verifications (snd ?run')) = [1, 2, 3, 9]"
    by (simp add: example_send_env_def)
  from ok one two three show ?thesis by (intro conjI)
qed

text \<open>
  The claim as written fails: when the delete fails and the insert succeeds, the handler
  answers 200 and the email has two unverified rows.
\<close>

theorem failed_delete_leaves_two_unverified:
  "status (fst (send_otp (example_send_env\<lparr> deleteError := True \<rparr>) (Post example_send_request)
      (example_store [example_row]))) = 200
   \<and> map otp_id (filter (\<lambda>row. otp_email row = ''asha@college.edu'' \<and> \<not> verified row)
        (otp_verifications (snd (send_otp (example_send_env\<lparr> deleteError := True \<rparr>)
           (Post example_send_request) (example_store [example_row]))))) = [1, 9]"
  by (simp add: send_otp_def signup_gate_def not_preregistered_def issue_def Let_def
      example_send_env_def example_send_request_def example_store_def example_row_def)

text \<open>
  Claim C7, as the code has it. With a readable request and a working lookup, verification
  fails closed in each of the three situations and leaves the store as it was, each with a
  response of its own: 404 "No OTP found for this email" when the email has no unverified
  row, 400 "OTP has expired" when the newest unverified row is past its expiry, and 400
  "Too many failed attempts. Please request a new OTP" when that row is unexpired and has
  5 or more attempts.
\<close>

theorem verification_failures_are_distinguished:
  assumes "vr_email r = Some e" and "e \<noteq> []" and "vr_otp r = Some otp" and "otp \<noteq> []"
    and "\<not> fetchError env"
  shows "(find_otp e (otp_verifications st) = None \<longrightarrow>
            verify_otp env (Post r) st = (error_response 404 ''No OTP found for this email'', st))
       \<and> (\<forall>row. find_otp e (otp_verifications st) = Some row \<and> expires_at row < now env \<longrightarrow>
            verify_otp env (Post r) st = (error_response 400 ''OTP has expired'', st))
       \<and> (\<forall>row. find_otp e (otp_verifications st) = Some row \<and> \<not> expires_at row < now env
              \<and> attempts row \<ge> 5 \<longrightarrow>
            verify_otp env (Post r) st =
              (error_response 400 ''Too many failed attempts. Please request a new OTP'', st))"
  using assms
  by (simp add: verify_otp_post falsy_def check_code_reject)

theorem verification_failures_are_distinguished_witness:
  "verify_otp (example_verify_env 700000) (Post (example_verify_request ''123456'' ''signup''))
      (example_store [example_row])
   = (error_response 400 ''OTP has expired'', example_store [example_row])
   \<and> verify_otp (example_verify_env 700000) (Post (example_verify_request ''123456'' ''signup''))
      (example_store [])
   = (error_response 404 ''No OTP found for this email'', example_store [])
   \<and> verify_otp (example_verify_env 700000) (Post (example_verify_request ''123456'' ''signup''))
      (example_store [example_row\<lparr> expires_at := 900000, attempts := 6 \<rparr>])
   = (error_response 400 ''Too many failed attempts. Please request a new OTP'',
      example_store [example_row\<lparr> expires_at := 900000, attempts := 6 \<rparr>])"
proof -
  let ?r = "example_verify_request ''123456'' ''signup''"
  let ?env = "example_verify_env 700000"
  have a: "vr_email ?r = Some ''asha@college.edu''" "vr_otp ?r = Some ''123456''"
    by (simp_all add: example_verify_request_def)
  have b: "''asha@college.edu'' \<noteq> []" "''123456'' \<noteq> []" by simp_all
  have c: "\<not> fetchError ?env" by (simp add: example_verify_env_def)
  have found: "find_otp ''asha@college.edu'' (otp_verifications (example_store [example_row]))
      = Some example_row"
    by (simp add: find_otp_def example_store_def example_row_def)
  have late: "expires_at example_row < now ?env"
    by (simp add: example_row_def example_verify_env_def)
  have none: "find_otp ''asha@college.edu'' (otp_verifications (example_store [])) = None"
    by (simp add: find_otp_def example_store_def)
  from verification_failures_are_distinguished [OF a(1) b(1) a(2) b(2) c,
      of "example_store [example_row]"] found late
  have one: "verify_otp ?env (Post ?r) (example_store [example_row])
      = (error_response 400 ''OTP has expired'', example_store [example_row])"
    by blast
  from verification_failures_are_distinguished [OF a(1) b(1) a(2) b(2) c, of "example_store []"]
    none
  have two: "verify_otp ?env (Post ?r) (example_store [])
      = (error_response 404 ''No OTP found for this email'', example_store [])"
    by blast
  let ?worn = "example_row\<lparr> expires_at := 900000, attempts := 6 \<rparr>"
  have found': "find_otp ''asha@college.edu'' (otp_verifications (example_store [?worn]))
      = Some ?worn"
    by (simp add: find_otp_def example_store_def example_row_def)
  have worn: "\<not> expires_at ?worn < now ?env" "attempts ?worn \<ge> 5"
    by (simp_all add: example_verify_env_def)
  from verification_failures_are_distinguished [OF a(1) b(1) a(2) b(2) c,
      of "example_store [?worn]"] found' worn
  have "verify_otp ?env (Post ?r) (example_store [?worn])
      = (error_response 400 ''Too many failed attempts. Please request a new OTP'',
         example_store [?worn])"
    by blast
  with one two show ?thesis by simp
qed

text \<open>
  The claim as written fails: an expired row and an exhausted row are answered with
  messages of their own, not with the response given when no row exists.
\<close>

theorem failure_responses_differ:
  "fst (verify_otp (example_verify_env 2000) (Post (example_verify_request ''123456'' ''signup''))
      (example_store [])) = error_response 404 ''No OTP found for this email''
   \<and> fst (verify_otp (example_verify_env 700000)
        (Post (example_verify_request ''123456'' ''signup'')) (example_store [example_row]))
      = error_response 400 ''OTP has expired''
   \<and> fst (verify_otp (example_verify_env 2000)
        (Post (example_verify_request ''123456'' ''signup''))
        (example_store [example_row\<lparr> attempts := 5 \<rparr>]))
      = error_response 400 ''Too many failed attempts. Please request a new OTP''
   \<and> error_response 400 ''OTP has expired'' \<noteq> error_response 404 ''No OTP found for this email''
   \<and> error_response 400 ''Too many failed attempts. Please request a new OTP''
      \<noteq> error_response 404 ''No OTP found for this email''"
  by (simp add: verify_otp_def check_code_def find_otp_def error_response_def
      example_verify_env_def example_verify_request_def example_store_def example_row_def)

text \<open>
  Claim C9, as the code has it. From a random double in the unit interval the issuing
  handler derives the decimal string of an integer between 100000 and 999999: six decimal
  digits, the first never 0, so no code has a leading zero; and each integer of that range
  is the code for some double of the interval.
\<close>

theorem otp_is_six_digits_from_100000:
  assumes "is_double r" and "0 \<le> r" and "r < 1"
  shows "generate_otp r = toString \<lfloor>fadd 100000 (fmul r 900000)\<rfloor>
       \<and> 100000 \<le> \<lfloor>fadd 100000 (fmul r 900000)\<rfloor>
       \<and> \<lfloor>fadd 100000 (fmul r 900000)\<rfloor> \<le> 999999
       \<and> length (generate_otp r) = 6
       \<and> set (generate_otp r) \<subseteq> set ''0123456789''
       \<and> hd (generate_otp r) \<noteq> CHR ''0''
       \<and> (\<forall>n. 100000 \<le> n \<and> n \<le> 999999 \<longrightarrow>
             (\<exists>r'. is_double r' \<and> 0 \<le> r' \<and> r' < 1 \<and> generate_otp r' = toString n))"
proof -
  have reach: "\<exists>r'. is_double r' \<and> 0 \<le> r' \<and> r' < 1 \<and> generate_otp r' = toString n"
    if "100000 \<le> n \<and> n \<le> 999999" for n
    using that generate_otp_reaches [of n] by blast
  have lo: "100000 \<le> \<lfloor>fadd 100000 (fmul r 900000)\<rfloor>"
    using assms(2) by (rule otp_number_lower)
  have hi: "\<lfloor>fadd 100000 (fmul r 900000)\<rfloor> \<le> 999999"
    using assms(1,3) by (rule otp_number_upper)
  from generate_otp_shape(4) [OF assms(2) hi] have len: "length (generate_otp r) = 6" .
  from lo hi len generate_otp_shape(2,3) [OF assms(2)] reach show ?thesis
    by (simp add: generate_otp_def)
qed

theorem otp_is_six_digits_from_100000_witness:
  "is_double (150119987579 / 2 ^ 52)
   \<and> generate_otp (150119987579 / 2 ^ 52) = ''100030''
   \<and> length (generate_otp (150119987579 / 2 ^ 52)) = 6
   \<and> hd (generate_otp (150119987579 / 2 ^ 52)) \<noteq> CHR ''0''
   \<and> \<lfloor>100000 + 150119987579 / 2 ^ 52 * 900000 :: rat\<rfloor> = 100029"
proof -
  have "double_of (of_int 150119987579 * 2 powi (- 52)) = of_int 150119987579 * 2 powi (- 52)"
    by (rule double_of_dyadic) simp_all
  then have d: "is_double (150119987579 / 2 ^ 52)"
    by (simp add: is_double_def power_int_minus_divide)
  have a: "(0::rat) \<le> 150119987579 / 2 ^ 52" "(150119987579::rat) / 2 ^ 52 < 1" by simp_all
  have c1: "fmul (150119987579 / 4503599627370496) (900000) = 4222124650659375 / 140737488355328"
    unfolding fmul_def
    by (rule double_of_eqI [where e = "4" and N = 8444249301318750 and q = "1 / 281474976710656"])
       (simp_all add: power_int_minus_divide)
  have c2: "fadd (100000) (4222124650659375 / 140737488355328) = 100030"
    unfolding fadd_def
    by (rule double_of_eqI [where e = "16" and N = 6874009257902080 and q = "1 / 68719476736"])
       (simp_all add: power_int_minus_divide)
  have "\<lfloor>100030 :: rat\<rfloor> = 100030" by simp
  then have code: "generate_otp (150119987579 / 2 ^ 52) = ''100030''"
    by (simp add: generate_otp_def c1 c2 toString_def digits_of.simps digit_chars)
  have exact: "\<lfloor>100000 + 150119987579 / 2 ^ 52 * 900000 :: rat\<rfloor> = 100029"
    by (simp add: floor_eq_iff)
  from otp_is_six_digits_from_100000 [OF d a]
  have "length (generate_otp (150119987579 / 2 ^ 52)) = 6"
    and "hd (generate_otp (150119987579 / 2 ^ 52)) \<noteq> CHR ''0''"
    by blast+
  with d code exact show ?thesis by (intro conjI)
qed

text \<open>The claim as written fails: no random number gives the code 000000.\<close>

theorem otp_never_all_zeros:
  "\<not> (\<exists>r. is_double r \<and> 0 \<le> r \<and> r < 1 \<and> generate_otp r = ''000000'')"
proof
  assume "\<exists>r. is_double r \<and> 0 \<le> r \<and> r < 1 \<and> generate_otp r = ''000000''"
  then obtain r where r: "0 \<le> r" and z: "generate_otp r = ''000000''" by blast
  from r have "hd (generate_otp r) \<noteq> CHR ''0''" by (rule generate_otp_shape(2))
  with z show False by simp
qed

text \<open>
  Claim C10. A reset request with a correct, unexpired code that has fewer than 5 attempts,
  for an email that owns no account, is answered 200 with the temporary password; the
  store is left as it was, so no password is updated and the code row stays unverified.
\<close>

theorem reset_without_account_returns_success:
  assumes "vr_email r = Some e" and "e \<noteq> []" and "vr_otp r = Some otp" and "otp \<noteq> []"
    and "vr_purpose r = Some ''reset''"
    and "\<not> fetchError env"
    and "find_otp e (otp_verifications st) = Some row"
    and "\<not> expires_at row < now env" and "attempts row < 5"
    and "trim (otp_code row) = trim otp"
    and "\<not> list_ex (\<lambda>u. user_email u = e) (users st)"
  shows "verify_otp env (Post r) st =
           (\<lparr> status = 200,
              body = SuccessBody ''OTP verified successfully'' (Some (tempPassword env)) \<rparr>, st)"
proof -
  have "check_code env r e otp st = reset env e row st"
    using assms by (simp add: check_code_def)
  also have "\<dots> = (success_response env, st)"
    using assms(11) by (rule reset_no_account)
  finally show ?thesis
    using assms(1-4) by (simp add: verify_otp_post falsy_def success_response_def)
qed

theorem reset_without_account_returns_success_witness:
  "verify_otp (example_verify_env 2000) (Post (example_verify_request '' 123456 '' ''reset''))
      (example_store [example_row])
   = (\<lparr> status = 200,
        body = SuccessBody ''OTP verified successfully'' (Some ''k3j9x0q2m4p7z1a8b5c6d2e9'') \<rparr>,
      example_store [example_row])
   \<and> verified example_row = False"
proof -
  let ?r = "example_verify_request '' 123456 '' ''reset''"
  let ?env = "example_verify_env 2000"
  let ?st = "example_store [example_row]"
  have a: "vr_email ?r = Some ''asha@college.edu''" "vr_otp ?r = Some '' 123456 ''"
    "vr_purpose ?r = Some ''reset''"
    by (simp_all add: example_verify_request_def)
  have b: "''asha@college.edu'' \<noteq> []" "'' 123456 '' \<noteq> []" by simp_all
  have c: "\<not> fetchError ?env" by (simp add: example_verify_env_def)
  have d: "find_otp ''asha@college.edu'' (otp_verifications ?st) = Some example_row"
    by (simp add: find_otp_def example_store_def example_row_def)
  have e: "\<not> expires_at example_row < now ?env" "attempts example_row < 5"
    by (simp_all add: example_row_def example_verify_env_def)
  have f: "trim (otp_code example_row) = trim '' 123456 ''"
    by code_simp
  have g: "\<not> list_ex (\<lambda>u. user_email u = ''asha@college.edu'') (users ?st)"
    by (simp add: example_store_def)
  have t: "tempPassword ?env = ''k3j9x0q2m4p7z1a8b5c6d2e9''"
    by (simp add: example_verify_env_def)
  from reset_without_account_returns_success [OF a(1) b(1) a(2) b(2) a(3) c d e f g] t
  show ?thesis by (simp add: example_row_def)
qed

end

